theory Spec2Isabelle
  imports Main
begin

section \<open>Data model of the diff view (side-by-side-diff.tsx)\<close>

text \<open>
  The types below follow the declarations the component uses. Line numbers and
  diff line numbers are natural numbers; row numbers are integers, since a row
  number handed to the component is an arbitrary JavaScript number and an array
  read at a negative index yields \<^verbatim>\<open>undefined\<close>. Strings are lists of
  characters, and \<open>length\<close> counts them as JavaScript's \<^verbatim>\<open>String.length\<close>
  counts code units.
\<close>

datatype DiffColumn = Before | After

datatype DiffLineType = Context | Add | Delete | Hunk

datatype DiffHunkExpansionType = ExpansionNone | ExpansionUp | ExpansionDown | ExpansionBoth

record IToken =
  token_length :: nat
  token :: string

type_synonym ILineTokens = "nat \<rightharpoonup> IToken"

type_synonym ITokens = "nat \<rightharpoonup> ILineTokens"

record DiffLine =
  line_text :: string
  line_content :: string
  line_type :: DiffLineType
  originalLineNumber :: "nat option"
  oldLineNumber :: "nat option"
  newLineNumber :: "nat option"
  noTrailingNewLine :: bool

record DiffHunk =
  lines :: "DiffLine list"
  unifiedDiffStart :: nat
  expansionType :: DiffHunkExpansionType

record ITextDiff =
  diff_text :: string
  hunks :: "DiffHunk list"
  maxLineNumber :: nat

record ISelectionPoint =
  column :: DiffColumn
  row :: int

record ISelection =
  sel_from :: ISelectionPoint
  sel_to :: ISelectionPoint
  sel_isSelected :: bool

record ModifiedLine =
  ml_line :: DiffLine
  ml_diffLineNumber :: nat

record SimplifiedDiffRowData =
  content :: string
  lineNumber :: nat
  diffLineNumber :: "nat option"
  noNewLineIndicator :: bool
  tokens :: "ILineTokens list"

record IDiffRowData = SimplifiedDiffRowData +
  isSelected :: bool

text \<open>
  The rows are a tagged union; the row data is a parameter, so that the rows
  of the classifier (\<open>SimplifiedDiffRow\<close>) and the rows handed to the renderer
  (\<open>DiffRow\<close>) share the constructors. The arguments are, in order:
  \<open>AddedRow data hunkStartLine\<close>, \<open>DeletedRow data hunkStartLine\<close>,
  \<open>ModifiedRow beforeData afterData hunkStartLine\<close>,
  \<open>ContextRow content beforeLineNumber afterLineNumber beforeTokens afterTokens\<close>,
  \<open>HunkRow content expansionType hunkIndex\<close>.
\<close>

datatype 'd DiffRowOf =
    AddedRow 'd nat
  | DeletedRow 'd nat
  | ModifiedRow 'd 'd nat
  | ContextRow string nat nat "ILineTokens list" "ILineTokens list"
  | HunkRow string DiffHunkExpansionType nat

type_synonym SimplifiedDiffRow = "SimplifiedDiffRowData DiffRowOf"

type_synonym DiffRow = "IDiffRowData DiffRowOf"

section \<open>Selection engine\<close>

text \<open>
  \<open>DiffSelection\<close> is declared in models/diff; the component only calls its
  methods. They are parameters here: \<open>isSel s n\<close> stands for
  \<^verbatim>\<open>s.isSelected(n)\<close>.
\<close>

definition isInTemporarySelection :: "int \<Rightarrow> DiffColumn \<Rightarrow> ISelection option \<Rightarrow> bool" where
  "isInTemporarySelection r c selection =
     (case selection of
        None \<Rightarrow> False
      | Some s \<Rightarrow>
          (if r \<ge> min (row (sel_from s)) (row (sel_to s)) \<and>
              r \<le> max (row (sel_to s)) (row (sel_from s)) \<and>
              (c = column (sel_from s) \<or> c = column (sel_to s))
           then True
           else False))"

definition isInSelection ::
  "('sel \<Rightarrow> nat \<Rightarrow> bool) \<Rightarrow> nat \<Rightarrow> int \<Rightarrow> DiffColumn \<Rightarrow> 'sel option \<Rightarrow> ISelection option \<Rightarrow> bool" where
  "isInSelection isSel dln r c selection temporarySelection =
     (let isInStoredSelection = (case selection of None \<Rightarrow> False | Some s \<Rightarrow> isSel s dln)
      in case temporarySelection of
           None \<Rightarrow> isInStoredSelection
         | Some t \<Rightarrow>
             (let isInTemporary = isInTemporarySelection r c temporarySelection
              in if sel_isSelected t
                 then isInStoredSelection \<or> isInTemporary
                 else isInStoredSelection \<and> \<not> isInTemporary))"

text \<open>
  The two notions the selection claim speaks of, written from its words: the
  persisted membership test, and membership in the rectangle of a drag.
\<close>

definition persistedMembership :: "('sel \<Rightarrow> nat \<Rightarrow> bool) \<Rightarrow> 'sel option \<Rightarrow> nat \<Rightarrow> bool" where
  "persistedMembership isSel selection dln =
     (case selection of None \<Rightarrow> False | Some s \<Rightarrow> isSel s dln)"

definition withinTransientRectangle :: "ISelection \<Rightarrow> int \<Rightarrow> DiffColumn \<Rightarrow> bool" where
  "withinTransientRectangle t r c =
     (((row (sel_from t) \<le> r \<and> r \<le> row (sel_to t)) \<or>
       (row (sel_to t) \<le> r \<and> r \<le> row (sel_from t))) \<and>
      (c = column (sel_from t) \<or> c = column (sel_to t)))"

section \<open>Row classifier\<close>

text \<open>
  Every \<^verbatim>\<open>throw\<close> of the classifier is a value of \<open>error\<close>:
  the two \<^verbatim>\<open>assertNonNullable\<close> calls on a context line (with the diff
  line number of their message), \<^verbatim>\<open>forceUnwrap\<close> on an array read
  (\<open>UnexpectedNullLine\<close>) and on a line number (\<open>ExpectingValue\<close>),
  \<^verbatim>\<open>assertNever\<close> (\<open>InvalidLineType\<close>), and the property read of an
  \<^verbatim>\<open>undefined\<close> array element (\<open>TypeError\<close>).
\<close>

datatype LineToUse = OldLineNumber | NewLineNumber

datatype error =
    NoOldLineNumber nat
  | NoNewLineNumber nat
  | UnexpectedNullLine
  | ExpectingValue LineToUse
  | InvalidLineType
  | TypeError

definition MaxLineLengthToCalculateDiff :: nat where
  "MaxLineLengthToCalculateDiff = 240"

text \<open>
  JavaScript arrays as the classifier uses them. \<open>array_get\<close> is the read
  \<^verbatim>\<open>xs[i]\<close>, \<^verbatim>\<open>undefined\<close> out of range. The two arrays of
  emphasis tokens are sparse: an element is \<open>None\<close> where the array has a
  hole, \<open>array_set\<close> is the write \<^verbatim>\<open>xs[i] = v\<close>, which extends the
  array with holes when \<open>i\<close> is beyond its end, and \<open>array_shift\<close> is
  \<^verbatim>\<open>xs.shift()\<close>, which yields \<^verbatim>\<open>undefined\<close> for a hole and for
  the empty array.
\<close>

definition array_get :: "'a list \<Rightarrow> nat \<Rightarrow> 'a option" where
  "array_get xs i = (if i < length xs then Some (xs ! i) else None)"

definition array_set :: "'a option list \<Rightarrow> nat \<Rightarrow> 'a \<Rightarrow> 'a option list" where
  "array_set xs i v =
     (if i < length xs then xs[i := Some v]
      else xs @ replicate (i - length xs) None @ [Some v])"

definition array_shift :: "'a option list \<Rightarrow> 'a option \<times> 'a option list" where
  "array_shift xs = (case xs of [] \<Rightarrow> (None, []) | x # rest \<Rightarrow> (x, rest))"

definition forceUnwrap :: "error \<Rightarrow> 'a option \<Rightarrow> error + 'a" where
  "forceUnwrap message x = (case x of None \<Rightarrow> Inl message | Some v \<Rightarrow> Inr v)"

definition getDataFromLine ::
  "ModifiedLine \<Rightarrow> LineToUse \<Rightarrow> ILineTokens option \<Rightarrow> error + SimplifiedDiffRowData" where
  "getDataFromLine ml lineToUse diffTokens =
     (case forceUnwrap (ExpectingValue lineToUse)
             (case lineToUse of
                OldLineNumber \<Rightarrow> oldLineNumber (ml_line ml)
              | NewLineNumber \<Rightarrow> newLineNumber (ml_line ml)) of
        Inl e \<Rightarrow> Inl e
      | Inr n \<Rightarrow>
          Inr \<lparr> content = line_content (ml_line ml),
                lineNumber = n,
                diffLineNumber = originalLineNumber (ml_line ml),
                noNewLineIndicator = noTrailingNewLine (ml_line ml),
                tokens = (case diffTokens of None \<Rightarrow> [] | Some t \<Rightarrow> [t]) \<rparr>)"

text \<open>The first loop of \<open>getModifiedRows\<close>: the lines go to two arrays by type.\<close>

fun splitLines ::
  "ModifiedLine list \<Rightarrow> ModifiedLine list \<Rightarrow> ModifiedLine list \<Rightarrow>
   ModifiedLine list \<times> ModifiedLine list" where
  "splitLines [] addedLines deletedLines = (addedLines, deletedLines)"
| "splitLines (l # ls) addedLines deletedLines =
     (if line_type (ml_line l) = Add then splitLines ls (addedLines @ [l]) deletedLines
      else if line_type (ml_line l) = Delete then splitLines ls addedLines (deletedLines @ [l])
      else splitLines ls addedLines deletedLines)"

text \<open>
  The loop that computes the emphasis tokens. \<open>getDiffTokens\<close> is imported
  from diff-helpers and is the parameter \<open>gdt\<close>: \<open>gdt b a\<close> is the
  pair of the token maps \<^verbatim>\<open>{ before, after }\<close>.
\<close>

function diffTokensLoop ::
  "(string \<Rightarrow> string \<Rightarrow> ILineTokens \<times> ILineTokens) \<Rightarrow>
   ModifiedLine list \<Rightarrow> ModifiedLine list \<Rightarrow> nat \<Rightarrow>
   ILineTokens option list \<Rightarrow> ILineTokens option list \<Rightarrow>
   error + (ILineTokens option list \<times> ILineTokens option list)" where
  "diffTokensLoop gdt addedLines deletedLines i diffTokensBefore diffTokensAfter =
     (if i < length deletedLines then
        (case array_get addedLines i of
           None \<Rightarrow> Inl TypeError
         | Some addedLine \<Rightarrow>
             (case array_get deletedLines i of
                None \<Rightarrow> Inl TypeError
              | Some deletedLine \<Rightarrow>
                  if length (line_content (ml_line addedLine)) < MaxLineLengthToCalculateDiff \<and>
                     length (line_content (ml_line deletedLine)) < MaxLineLengthToCalculateDiff
                  then
                    (case gdt (line_content (ml_line deletedLine))
                              (line_content (ml_line addedLine)) of
                       (bef, aft) \<Rightarrow>
                         diffTokensLoop gdt addedLines deletedLines (i + 1)
                           (array_set diffTokensBefore i bef)
                           (array_set diffTokensAfter i aft))
                  else diffTokensLoop gdt addedLines deletedLines (i + 1)
                         diffTokensBefore diffTokensAfter))
      else Inr (diffTokensBefore, diffTokensAfter))"
  by pat_completeness auto
termination
  by (relation "measure (\<lambda>(gdt, addedLines, deletedLines, i, tb, ta). length deletedLines - i)")
     auto

text \<open>
  The \<^verbatim>\<open>while\<close> loop that pairs the lines; it returns
  \<open>indexModifiedRow\<close>, what is left of the two token arrays, and the output.
\<close>

function modifiedLoop ::
  "bool \<Rightarrow> ModifiedLine list \<Rightarrow> ModifiedLine list \<Rightarrow> nat \<Rightarrow> nat \<Rightarrow>
   ILineTokens option list \<Rightarrow> ILineTokens option list \<Rightarrow> SimplifiedDiffRow list \<Rightarrow>
   error + (nat \<times> ILineTokens option list \<times> ILineTokens option list \<times> SimplifiedDiffRow list)" where
  "modifiedLoop showSideBySideDiff addedLines deletedLines hunkStartLine indexModifiedRow
       diffTokensBefore diffTokensAfter output =
     (if showSideBySideDiff \<and> indexModifiedRow < length addedLines \<and>
         indexModifiedRow < length deletedLines then
        (case forceUnwrap UnexpectedNullLine (array_get addedLines indexModifiedRow) of
           Inl e \<Rightarrow> Inl e
         | Inr addedLine \<Rightarrow>
        (case forceUnwrap UnexpectedNullLine (array_get deletedLines indexModifiedRow) of
           Inl e \<Rightarrow> Inl e
         | Inr deletedLine \<Rightarrow>
        (case getDataFromLine deletedLine OldLineNumber (fst (array_shift diffTokensBefore)) of
           Inl e \<Rightarrow> Inl e
         | Inr beforeData \<Rightarrow>
        (case getDataFromLine addedLine NewLineNumber (fst (array_shift diffTokensAfter)) of
           Inl e \<Rightarrow> Inl e
         | Inr afterData \<Rightarrow>
             modifiedLoop showSideBySideDiff addedLines deletedLines hunkStartLine
               (indexModifiedRow + 1)
               (snd (array_shift diffTokensBefore)) (snd (array_shift diffTokensAfter))
               (output @ [ModifiedRow beforeData afterData hunkStartLine])))))
      else Inr (indexModifiedRow, diffTokensBefore, diffTokensAfter, output))"
  by pat_completeness auto
termination
  by (relation "measure (\<lambda>(sbs, addedLines, deletedLines, h, i, tb, ta, out). length addedLines - i)")
     auto

text \<open>The two \<^verbatim>\<open>for\<close> loops over what is left of the deleted and the added lines.\<close>

function deletedLoop ::
  "ModifiedLine list \<Rightarrow> nat \<Rightarrow> nat \<Rightarrow> ILineTokens option list \<Rightarrow> SimplifiedDiffRow list \<Rightarrow>
   error + (ILineTokens option list \<times> SimplifiedDiffRow list)" where
  "deletedLoop deletedLines hunkStartLine i diffTokensBefore output =
     (if i < length deletedLines then
        (case forceUnwrap UnexpectedNullLine (array_get deletedLines i) of
           Inl e \<Rightarrow> Inl e
         | Inr l \<Rightarrow>
        (case getDataFromLine l OldLineNumber (fst (array_shift diffTokensBefore)) of
           Inl e \<Rightarrow> Inl e
         | Inr d \<Rightarrow>
             deletedLoop deletedLines hunkStartLine (i + 1) (snd (array_shift diffTokensBefore))
               (output @ [DeletedRow d hunkStartLine])))
      else Inr (diffTokensBefore, output))"
  by pat_completeness auto
termination
  by (relation "measure (\<lambda>(deletedLines, h, i, tb, out). length deletedLines - i)") auto

function addedLoop ::
  "ModifiedLine list \<Rightarrow> nat \<Rightarrow> nat \<Rightarrow> ILineTokens option list \<Rightarrow> SimplifiedDiffRow list \<Rightarrow>
   error + (ILineTokens option list \<times> SimplifiedDiffRow list)" where
  "addedLoop addedLines hunkStartLine i diffTokensAfter output =
     (if i < length addedLines then
        (case forceUnwrap UnexpectedNullLine (array_get addedLines i) of
           Inl e \<Rightarrow> Inl e
         | Inr l \<Rightarrow>
        (case getDataFromLine l NewLineNumber (fst (array_shift diffTokensAfter)) of
           Inl e \<Rightarrow> Inl e
         | Inr d \<Rightarrow>
             addedLoop addedLines hunkStartLine (i + 1) (snd (array_shift diffTokensAfter))
               (output @ [AddedRow d hunkStartLine])))
      else Inr (diffTokensAfter, output))"
  by pat_completeness auto
termination
  by (relation "measure (\<lambda>(addedLines, h, i, ta, out). length addedLines - i)") auto

definition getModifiedRows ::
  "(string \<Rightarrow> string \<Rightarrow> ILineTokens \<times> ILineTokens) \<Rightarrow> ModifiedLine list \<Rightarrow> bool \<Rightarrow>
   error + SimplifiedDiffRow list" where
  "getModifiedRows gdt addedDeletedLines showSideBySideDiff =
     (case addedDeletedLines of
        [] \<Rightarrow> Inr []
      | first # _ \<Rightarrow>
          (let hunkStartLine = ml_diffLineNumber first;
               addedLines = fst (splitLines addedDeletedLines [] []);
               deletedLines = snd (splitLines addedDeletedLines [] []);
               shouldDisplayDiffInChunk = (length addedLines = length deletedLines)
           in case (if shouldDisplayDiffInChunk
                    then diffTokensLoop gdt addedLines deletedLines 0 [] []
                    else Inr ([], [])) of
                Inl e \<Rightarrow> Inl e
              | Inr (diffTokensBefore, diffTokensAfter) \<Rightarrow>
             (case modifiedLoop showSideBySideDiff addedLines deletedLines hunkStartLine 0
                     diffTokensBefore diffTokensAfter [] of
                Inl e \<Rightarrow> Inl e
              | Inr (indexModifiedRow, diffTokensBefore1, diffTokensAfter1, output1) \<Rightarrow>
             (case deletedLoop deletedLines hunkStartLine indexModifiedRow
                     diffTokensBefore1 output1 of
                Inl e \<Rightarrow> Inl e
              | Inr (diffTokensBefore2, output2) \<Rightarrow>
             (case addedLoop addedLines hunkStartLine indexModifiedRow
                     diffTokensAfter1 output2 of
                Inl e \<Rightarrow> Inl e
              | Inr (diffTokensAfter2, output3) \<Rightarrow> Inr output3)))))"

text \<open>
  \<open>getDiffRowsFromHunk\<close>: the loop over \<^verbatim>\<open>hunk.lines.entries()\<close>, with the
  buffer \<open>modifiedLines\<close> and the rows so far as its state, and the last pass
  over the buffer after it.
\<close>

definition flushModifiedLines ::
  "(string \<Rightarrow> string \<Rightarrow> ILineTokens \<times> ILineTokens) \<Rightarrow> bool \<Rightarrow>
   ModifiedLine list \<Rightarrow> SimplifiedDiffRow list \<Rightarrow> error + SimplifiedDiffRow list" where
  "flushModifiedLines gdt showSideBySideDiff modifiedLines rows =
     (if length modifiedLines > 0 then
        (case getModifiedRows gdt modifiedLines showSideBySideDiff of
           Inl e \<Rightarrow> Inl e
         | Inr rs \<Rightarrow> Inr (rows @ rs))
      else Inr rows)"

fun hunkLinesLoop ::
  "(string \<Rightarrow> string \<Rightarrow> ILineTokens \<times> ILineTokens) \<Rightarrow> nat \<Rightarrow> DiffHunk \<Rightarrow> bool \<Rightarrow> bool \<Rightarrow>
   (nat \<times> DiffLine) list \<Rightarrow> ModifiedLine list \<Rightarrow> SimplifiedDiffRow list \<Rightarrow>
   error + (ModifiedLine list \<times> SimplifiedDiffRow list)" where
  "hunkLinesLoop gdt hunkIndex hunk showSideBySideDiff enableDiffExpansion [] modifiedLines rows =
     Inr (modifiedLines, rows)"
| "hunkLinesLoop gdt hunkIndex hunk showSideBySideDiff enableDiffExpansion ((num, line) # rest)
       modifiedLines rows =
     (if line_type line = Delete \<or> line_type line = Add then
        hunkLinesLoop gdt hunkIndex hunk showSideBySideDiff enableDiffExpansion rest
          (modifiedLines @ [\<lparr> ml_line = line, ml_diffLineNumber = unifiedDiffStart hunk + num \<rparr>])
          rows
      else
        (case flushModifiedLines gdt showSideBySideDiff modifiedLines rows of
           Inl e \<Rightarrow> Inl e
         | Inr rows1 \<Rightarrow>
             if line_type line = Hunk then
               hunkLinesLoop gdt hunkIndex hunk showSideBySideDiff enableDiffExpansion rest []
                 (rows1 @ [HunkRow (line_text line)
                             (if enableDiffExpansion then expansionType hunk else ExpansionNone)
                             hunkIndex])
             else if line_type line = Context then
               (case oldLineNumber line of
                  None \<Rightarrow> Inl (NoOldLineNumber (unifiedDiffStart hunk + num))
                | Some beforeLineNumber \<Rightarrow>
                    (case newLineNumber line of
                       None \<Rightarrow> Inl (NoNewLineNumber (unifiedDiffStart hunk + num))
                     | Some afterLineNumber \<Rightarrow>
                         hunkLinesLoop gdt hunkIndex hunk showSideBySideDiff enableDiffExpansion
                           rest []
                           (rows1 @ [ContextRow (line_content line) beforeLineNumber
                                       afterLineNumber [] [] ])))
             else Inl InvalidLineType))"

definition getDiffRowsFromHunk ::
  "(string \<Rightarrow> string \<Rightarrow> ILineTokens \<times> ILineTokens) \<Rightarrow> nat \<Rightarrow> DiffHunk \<Rightarrow> bool \<Rightarrow> bool \<Rightarrow>
   error + SimplifiedDiffRow list" where
  "getDiffRowsFromHunk gdt hunkIndex hunk showSideBySideDiff enableDiffExpansion =
     (case hunkLinesLoop gdt hunkIndex hunk showSideBySideDiff enableDiffExpansion
             (enumerate 0 (lines hunk)) [] [] of
        Inl e \<Rightarrow> Inl e
      | Inr (modifiedLines, rows) \<Rightarrow>
          flushModifiedLines gdt showSideBySideDiff modifiedLines rows)"

text \<open>
  \<open>getDiffRows\<close> is memoized on its arguments in the source; the cache does
  not change what it returns, so the model is the function itself.
\<close>

fun diffRowsLoop ::
  "(string \<Rightarrow> string \<Rightarrow> ILineTokens \<times> ILineTokens) \<Rightarrow> bool \<Rightarrow> bool \<Rightarrow>
   (nat \<times> DiffHunk) list \<Rightarrow> SimplifiedDiffRow list \<Rightarrow> error + SimplifiedDiffRow list" where
  "diffRowsLoop gdt showSideBySideDiff enableDiffExpansion [] outputRows = Inr outputRows"
| "diffRowsLoop gdt showSideBySideDiff enableDiffExpansion ((index, hunk) # rest) outputRows =
     (case getDiffRowsFromHunk gdt index hunk showSideBySideDiff enableDiffExpansion of
        Inl e \<Rightarrow> Inl e
      | Inr rs \<Rightarrow>
          diffRowsLoop gdt showSideBySideDiff enableDiffExpansion rest (outputRows @ rs))"

definition getDiffRows ::
  "(string \<Rightarrow> string \<Rightarrow> ILineTokens \<times> ILineTokens) \<Rightarrow> ITextDiff \<Rightarrow> bool \<Rightarrow> bool \<Rightarrow>
   error + SimplifiedDiffRow list" where
  "getDiffRows gdt d showSideBySideDiff enableDiffExpansion =
     diffRowsLoop gdt showSideBySideDiff enableDiffExpansion (enumerate 0 (hunks d)) []"

section \<open>Row classifier: what the claims say\<close>

text \<open>
  The definitions of this section are written from the words of the claims
  about the classifier, to be compared with the loops of the source.

  \<open>array_at\<close> reads a sparse array: a hole and an index beyond the end both
  read as \<open>None\<close>.
\<close>

definition array_at :: "'a option list \<Rightarrow> nat \<Rightarrow> 'a option" where
  "array_at xs i = (if i < length xs then xs ! i else None)"

text \<open>The added and the deleted lines of a run are its lines of type \<open>Add\<close> and \<open>Delete\<close>.\<close>

definition isAdd :: "ModifiedLine \<Rightarrow> bool" where
  "isAdd l = (line_type (ml_line l) = Add)"

definition isDelete :: "ModifiedLine \<Rightarrow> bool" where
  "isDelete l = (line_type (ml_line l) = Delete)"

text \<open>
  The emphasis of the pair \<open>i\<close> of a run: the tokens \<open>getDiffTokens\<close>
  computes from the deleted and the added line, when the run has as many
  added as deleted lines and both lines are shorter than the threshold, and
  nothing otherwise.
\<close>

definition shortPair :: "ModifiedLine list \<Rightarrow> ModifiedLine list \<Rightarrow> nat \<Rightarrow> bool" where
  "shortPair addedLines deletedLines i =
     (length (line_content (ml_line (addedLines ! i))) < MaxLineLengthToCalculateDiff \<and>
      length (line_content (ml_line (deletedLines ! i))) < MaxLineLengthToCalculateDiff)"

definition pairTokens ::
  "(string \<Rightarrow> string \<Rightarrow> ILineTokens \<times> ILineTokens) \<Rightarrow> ModifiedLine list \<Rightarrow> ModifiedLine list \<Rightarrow>
   nat \<Rightarrow> ILineTokens \<times> ILineTokens" where
  "pairTokens gdt addedLines deletedLines i =
     gdt (line_content (ml_line (deletedLines ! i))) (line_content (ml_line (addedLines ! i)))"

text \<open>
  The cell of a line: its content, the line number of its side, its diff line
  number, and its emphasis tokens if it has any. \<open>hasOld\<close> and \<open>hasNew\<close>
  say that the lines carry the line number of their side, as the diff
  producer guarantees for deleted and added lines.
\<close>

definition rowData :: "ModifiedLine \<Rightarrow> nat \<Rightarrow> ILineTokens option \<Rightarrow> SimplifiedDiffRowData" where
  "rowData l n emphasis =
     \<lparr> content = line_content (ml_line l),
       lineNumber = n,
       diffLineNumber = originalLineNumber (ml_line l),
       noNewLineIndicator = noTrailingNewLine (ml_line l),
       tokens = (case emphasis of None \<Rightarrow> [] | Some t \<Rightarrow> [t]) \<rparr>"

definition beforeDataOf :: "ModifiedLine \<Rightarrow> ILineTokens option \<Rightarrow> SimplifiedDiffRowData" where
  "beforeDataOf l emphasis = rowData l (the (oldLineNumber (ml_line l))) emphasis"

definition afterDataOf :: "ModifiedLine \<Rightarrow> ILineTokens option \<Rightarrow> SimplifiedDiffRowData" where
  "afterDataOf l emphasis = rowData l (the (newLineNumber (ml_line l))) emphasis"

definition hasOld :: "ModifiedLine list \<Rightarrow> bool" where
  "hasOld ls = list_all (\<lambda>l. oldLineNumber (ml_line l) \<noteq> None) ls"

definition hasNew :: "ModifiedLine list \<Rightarrow> bool" where
  "hasNew ls = list_all (\<lambda>l. newLineNumber (ml_line l) \<noteq> None) ls"

definition emphasisOf ::
  "(string \<Rightarrow> string \<Rightarrow> ILineTokens \<times> ILineTokens) \<Rightarrow> ModifiedLine list \<Rightarrow> ModifiedLine list \<Rightarrow>
   nat \<Rightarrow> (ILineTokens \<times> ILineTokens) option" where
  "emphasisOf gdt addedLines deletedLines i =
     (if length addedLines = length deletedLines \<and> i < length deletedLines \<and>
         shortPair addedLines deletedLines i
      then Some (pairTokens gdt addedLines deletedLines i)
      else None)"

text \<open>
  The rows of a run. In side-by-side display the first
  \<open>min (length added) (length deleted)\<close> added and deleted lines are paired
  into Modified rows, index by index; the deleted lines that are left follow
  as Deleted rows, then the added lines that are left as Added rows. In
  unified display no line is paired. Every row carries the diff line number
  of the first line of the run.
\<close>

definition pairedRows ::
  "(string \<Rightarrow> string \<Rightarrow> ILineTokens \<times> ILineTokens) \<Rightarrow> bool \<Rightarrow> ModifiedLine list \<Rightarrow>
   SimplifiedDiffRow list" where
  "pairedRows gdt sideBySide run =
     (let added = filter isAdd run;
          deleted = filter isDelete run;
          hunkStart = ml_diffLineNumber (hd run);
          n = (if sideBySide then min (length added) (length deleted) else 0);
          beforeData = (\<lambda>i. beforeDataOf (deleted ! i) (map_option fst (emphasisOf gdt added deleted i)));
          afterData = (\<lambda>i. afterDataOf (added ! i) (map_option snd (emphasisOf gdt added deleted i)))
      in map (\<lambda>i. ModifiedRow (beforeData i) (afterData i) hunkStart) [0..<n] @
         map (\<lambda>i. DeletedRow (beforeData i) hunkStart) [n..<length deleted] @
         map (\<lambda>i. AddedRow (afterData i) hunkStart) [n..<length added])"

text \<open>
  A run within a hunk: the lines of the hunk are \<open>pre @ run @ post\<close>, the
  run holds added and deleted lines only, and it is maximal, that is,
  \<open>pre\<close> does not end and \<open>post\<close> does not start with such a line.
  \<open>numberedLines hunk k ls\<close> are the lines \<open>ls\<close>, found at position
  \<open>k\<close> of the hunk, with their diff line numbers.
\<close>

definition isAddOrDelete :: "DiffLine \<Rightarrow> bool" where
  "isAddOrDelete l = (line_type l = Add \<or> line_type l = Delete)"

definition numberedLines :: "DiffHunk \<Rightarrow> nat \<Rightarrow> DiffLine list \<Rightarrow> ModifiedLine list" where
  "numberedLines hunk k ls =
     map (\<lambda>(num, line). \<lparr> ml_line = line, ml_diffLineNumber = unifiedDiffStart hunk + num \<rparr>)
       (enumerate k ls)"

definition startsWithOther :: "DiffLine list \<Rightarrow> bool" where
  "startsWithOther ls = (case ls of [] \<Rightarrow> True | l # _ \<Rightarrow> \<not> isAddOrDelete l)"

definition endsWithOther :: "DiffLine list \<Rightarrow> bool" where
  "endsWithOther ls = (ls = [] \<or> \<not> isAddOrDelete (last ls))"

definition wellNumbered :: "DiffLine list \<Rightarrow> bool" where
  "wellNumbered ls =
     list_all (\<lambda>l. (if line_type l = Add then newLineNumber l \<noteq> None else True) \<and>
                    (if line_type l = Delete then oldLineNumber l \<noteq> None else True)) ls"

text \<open>
  \<open>hunkRowsFrom\<close> is the rest of \<open>getDiffRowsFromHunk\<close> from a state of its
  loop: the loop over the entries that are left, and the last pass over the
  buffer. \<open>rowOfLine\<close> is the row the loop pushes for a line that is neither
  added nor deleted.
\<close>

definition withRowsBefore ::
  "SimplifiedDiffRow list \<Rightarrow> error + SimplifiedDiffRow list \<Rightarrow> error + SimplifiedDiffRow list" where
  "withRowsBefore rs res = (case res of Inl e \<Rightarrow> Inl e | Inr rows \<Rightarrow> Inr (rs @ rows))"

definition hunkRowsFrom ::
  "(string \<Rightarrow> string \<Rightarrow> ILineTokens \<times> ILineTokens) \<Rightarrow> nat \<Rightarrow> DiffHunk \<Rightarrow> bool \<Rightarrow> bool \<Rightarrow>
   (nat \<times> DiffLine) list \<Rightarrow> ModifiedLine list \<Rightarrow> SimplifiedDiffRow list \<Rightarrow>
   error + SimplifiedDiffRow list" where
  "hunkRowsFrom gdt hunkIndex hunk sbs exp es modifiedLines rows =
     (case hunkLinesLoop gdt hunkIndex hunk sbs exp es modifiedLines rows of
        Inl e \<Rightarrow> Inl e
      | Inr (ml, rs) \<Rightarrow> flushModifiedLines gdt sbs ml rs)"

definition rowOfLine :: "nat \<Rightarrow> DiffHunk \<Rightarrow> bool \<Rightarrow> nat \<Rightarrow> DiffLine \<Rightarrow> error + SimplifiedDiffRow" where
  "rowOfLine hunkIndex hunk exp num line =
     (if line_type line = Hunk then
        Inr (HunkRow (line_text line) (if exp then expansionType hunk else ExpansionNone) hunkIndex)
      else if line_type line = Context then
        (case oldLineNumber line of
           None \<Rightarrow> Inl (NoOldLineNumber (unifiedDiffStart hunk + num))
         | Some b \<Rightarrow>
             (case newLineNumber line of
                None \<Rightarrow> Inl (NoNewLineNumber (unifiedDiffStart hunk + num))
              | Some a \<Rightarrow> Inr (ContextRow (line_content line) b a [] [])))
      else Inl InvalidLineType)"

text \<open>
  The cells of the deleted lines of some rows, in order: the before side of a
  Modified row and the cell of a Deleted row. Likewise the cells of the added
  lines.
\<close>

fun beforeCell :: "SimplifiedDiffRow \<Rightarrow> SimplifiedDiffRowData list" where
  "beforeCell (ModifiedRow b a h) = [b]"
| "beforeCell (DeletedRow d h) = [d]"
| "beforeCell r = []"

fun afterCell :: "SimplifiedDiffRow \<Rightarrow> SimplifiedDiffRowData list" where
  "afterCell (ModifiedRow b a h) = [a]"
| "afterCell (AddedRow d h) = [d]"
| "afterCell r = []"

definition deletedCells :: "SimplifiedDiffRow list \<Rightarrow> SimplifiedDiffRowData list" where
  "deletedCells rs = concat (map beforeCell rs)"

definition addedCells :: "SimplifiedDiffRow list \<Rightarrow> SimplifiedDiffRowData list" where
  "addedCells rs = concat (map afterCell rs)"

section \<open>Search engine\<close>

text \<open>
  \<open>SearchResults\<close> keeps the hits twice: in \<open>lookup\<close>, by row and
  column, and in \<open>hits\<close>, in the order found. The key of \<open>lookup\<close> is the
  string \<^verbatim>\<open>`${row}.${column}`\<close> in the source, which is one-to-one on
  the pairs of an integer row and a column; the model keeps the pair. A hit is
  the tuple (row, column, offset, length), and \<open>sr_get\<close> returns it as such.

  A selected index is a JavaScript number, which may be \<^verbatim>\<open>NaN\<close>: the
  remainder by an empty result set's length is.
\<close>

datatype JSNumber = Num int | NaN

record SearchResults =
  lookup :: "(int \<times> DiffColumn) \<rightharpoonup> ILineTokens"
  hits :: "(int \<times> DiffColumn \<times> nat \<times> nat) list"

definition emptySearchResults :: SearchResults where
  "emptySearchResults = \<lparr> lookup = Map.empty, hits = [] \<rparr>"

definition sr_add :: "SearchResults \<Rightarrow> int \<Rightarrow> DiffColumn \<Rightarrow> nat \<Rightarrow> nat \<Rightarrow> SearchResults" where
  "sr_add sr r c offset len =
     (let key = (r, c);
          existing = lookup sr key;
          tok = \<lparr> token_length = len, token = ''search-result'' \<rparr>
      in \<lparr> lookup =
             (case existing of
                Some e \<Rightarrow> (lookup sr)(key \<mapsto> e(offset \<mapsto> tok))
              | None \<Rightarrow> (lookup sr)(key \<mapsto> [offset \<mapsto> tok])),
           hits = hits sr @ [(r, c, offset, len)] \<rparr>)"

definition sr_length :: "SearchResults \<Rightarrow> int" where
  "sr_length sr = int (length (hits sr))"

definition sr_get :: "SearchResults \<Rightarrow> JSNumber \<Rightarrow> (int \<times> DiffColumn \<times> nat \<times> nat) option" where
  "sr_get sr index =
     (case index of
        NaN \<Rightarrow> None
      | Num i \<Rightarrow> (if 0 \<le> i \<and> i < int (length (hits sr)) then Some (hits sr ! nat i) else None))"

definition getLineTokens :: "SearchResults \<Rightarrow> int \<Rightarrow> DiffColumn \<Rightarrow> ILineTokens option" where
  "getLineTokens sr r c = lookup sr (r, c)"

definition enumerateColumnContents :: "SimplifiedDiffRow \<Rightarrow> bool \<Rightarrow> (DiffColumn \<times> string) list" where
  "enumerateColumnContents r showSideBySideDiffs =
     (case r of
        HunkRow c _ _ \<Rightarrow> [(Before, c)]
      | AddedRow d _ \<Rightarrow> [(if showSideBySideDiffs then After else Before, content d)]
      | DeletedRow d _ \<Rightarrow> [(Before, content d)]
      | ContextRow c _ _ _ _ \<Rightarrow>
          (Before, c) # (if showSideBySideDiffs then [(After, c)] else [])
      | ModifiedRow b a _ \<Rightarrow> [(Before, content b), (After, content a)])"

text \<open>
  The regular expression is built by \<^verbatim>\<open>escapeRegExp\<close> (lib/helpers/regex)
  and run by the JavaScript engine; neither is in this file. The parameter
  \<open>matchAll\<close> stands for both: \<open>matchAll q s\<close> lists, for the matches of
  \<^verbatim>\<open>s.matchAll(new RegExp(escapeRegExp(q), 'gi'))\<close> in order, the pair of
  \<^verbatim>\<open>match.index\<close> and \<^verbatim>\<open>match[0].length\<close>.
\<close>

type_synonym Matcher = "string \<Rightarrow> string \<Rightarrow> (nat option \<times> nat) list"

definition searchColumn ::
  "Matcher \<Rightarrow> string \<Rightarrow> int \<Rightarrow> DiffColumn \<times> string \<Rightarrow> SearchResults \<Rightarrow> SearchResults" where
  "searchColumn matchAll searchQuery rowNumber col h =
     fold (\<lambda>m h. case fst m of
                    None \<Rightarrow> h
                  | Some index \<Rightarrow> sr_add h rowNumber (fst col) index (snd m))
       (matchAll searchQuery (snd col)) h"

definition searchRow ::
  "Matcher \<Rightarrow> string \<Rightarrow> bool \<Rightarrow> nat \<times> SimplifiedDiffRow \<Rightarrow> SearchResults \<Rightarrow> SearchResults" where
  "searchRow matchAll searchQuery showSideBySideDiffs e h =
     (case snd e of
        HunkRow _ _ _ \<Rightarrow> h
      | _ \<Rightarrow>
          fold (searchColumn matchAll searchQuery (int (fst e)))
            (enumerateColumnContents (snd e) showSideBySideDiffs) h)"

definition calcSearchTokens ::
  "Matcher \<Rightarrow> (string \<Rightarrow> string \<Rightarrow> ILineTokens \<times> ILineTokens) \<Rightarrow> ITextDiff \<Rightarrow> bool \<Rightarrow> string \<Rightarrow>
   bool \<Rightarrow> error + SearchResults option" where
  "calcSearchTokens matchAll gdt d showSideBySideDiffs searchQuery enableDiffExpansion =
     (if length searchQuery = 0 then Inr None
      else
        (case getDiffRows gdt d showSideBySideDiffs enableDiffExpansion of
           Inl e \<Rightarrow> Inl e
         | Inr rows \<Rightarrow>
             Inr (Some (fold (searchRow matchAll searchQuery showSideBySideDiffs)
                          (enumerate 0 rows) emptySearchResults))))"

section \<open>The component\<close>

text \<open>
  One record holds what the methods of \<open>SideBySideDiff\<close> read and write: the
  props they use (\<open>fileContents\<close>, \<open>showSideBySideDiff\<close>, and
  \<open>getSelection\<close>, the value of the method of that name, which is the file's
  selection when the file can be selected), the state, the private field
  \<open>diffToRestore\<close>, and \<open>scrolledToRow\<close>, the row of the last
  \<^verbatim>\<open>scrollToRow\<close> request made to the list. \<^verbatim>\<open>setState\<close> is
  modelled as the update of the record.
\<close>

record IFileContents =
  canBeExpanded :: bool
  newContents :: "string list"

record 'sel Component =
  fileContents :: "IFileContents option"
  showSideBySideDiff :: bool
  getSelection :: "'sel option"
  diff :: ITextDiff
  beforeTokens :: "ITokens option"
  afterTokens :: "ITokens option"
  temporarySelection :: "ISelection option"
  hoveredHunk :: "nat option"
  isSearching :: bool
  searchQuery :: "string option"
  searchResults :: "SearchResults option"
  selectedSearchResult :: "JSNumber option"
  diffToRestore :: "ITextDiff option"
  scrolledToRow :: "int option"

definition canExpandDiff :: "'sel Component \<Rightarrow> bool" where
  "canExpandDiff c =
     (case fileContents c of
        None \<Rightarrow> False
      | Some contents \<Rightarrow> canBeExpanded contents \<and> length (newContents contents) > 0)"

subsection \<open>Search\<close>

datatype Direction = Next | Previous

definition resetSearch :: "'sel Component \<Rightarrow> bool \<Rightarrow> 'sel Component" where
  "resetSearch c searching =
     c\<lparr> selectedSearchResult := None, searchQuery := None, searchResults := None,
        isSearching := searching \<rparr>"

definition onSearchCancel :: "'sel Component \<Rightarrow> 'sel Component" where
  "onSearchCancel c = resetSearch c False"

text \<open>
  \<open>js_rem\<close> is \<^verbatim>\<open>%\<close> on integers: the remainder has the sign of the
  dividend. \<open>stepSelected s delta n\<close> is \<^verbatim>\<open>(s + delta + n) % n\<close>.
\<close>

definition js_rem :: "int \<Rightarrow> int \<Rightarrow> int" where
  "js_rem a b = sgn a * (\<bar>a\<bar> mod \<bar>b\<bar>)"

definition stepSelected :: "JSNumber \<Rightarrow> int \<Rightarrow> int \<Rightarrow> JSNumber" where
  "stepSelected s delta n =
     (case s of
        NaN \<Rightarrow> NaN
      | Num i \<Rightarrow> (if n = 0 then NaN else Num (js_rem (i + delta + n) n)))"

definition showSearchResult ::
  "'sel Component \<Rightarrow> string \<Rightarrow> SearchResults \<Rightarrow> JSNumber \<Rightarrow> 'sel Component" where
  "showSearchResult c q results selected =
     (let scrollToRow = map_option fst (sr_get results selected);
          c1 = (case scrollToRow of None \<Rightarrow> c | Some r \<Rightarrow> c\<lparr> scrolledToRow := Some r \<rparr>)
      in c1\<lparr> searchQuery := Some q, searchResults := Some results,
              selectedSearchResult := Some selected \<rparr>)"

definition onSearch ::
  "Matcher \<Rightarrow> (string \<Rightarrow> string \<Rightarrow> ILineTokens \<times> ILineTokens) \<Rightarrow> 'sel Component \<Rightarrow> string \<Rightarrow>
   Direction \<Rightarrow> error + 'sel Component" where
  "onSearch matchAll gdt c q direction =
     (case (if Some q = searchQuery c then searchResults c else None) of
        Some results \<Rightarrow>
          (case selectedSearchResult c of
             None \<Rightarrow> Inr (showSearchResult c q results (Num 0))
           | Some s \<Rightarrow>
               (let delta = (if direction = Next then 1 else - 1)
                in Inr (showSearchResult c q results (stepSelected s delta (sr_length results)))))
      | None \<Rightarrow>
          (case calcSearchTokens matchAll gdt (diff c) (showSideBySideDiff c) q (canExpandDiff c) of
             Inl e \<Rightarrow> Inl e
           | Inr None \<Rightarrow> Inr (resetSearch c True)
           | Inr (Some results) \<Rightarrow>
               (if sr_length results = 0 then Inr (resetSearch c True)
                else Inr (showSearchResult c q results (Num 0)))))"

subsection \<open>Token overlay\<close>

definition getSearchTokens :: "'sel Component \<Rightarrow> int \<Rightarrow> DiffColumn \<Rightarrow> ILineTokens list option" where
  "getSearchTokens c r col =
     (case searchResults c of
        None \<Rightarrow> None
      | Some searchTokens \<Rightarrow>
          (case getLineTokens searchTokens r col of
             None \<Rightarrow> None
           | Some lineTokens \<Rightarrow>
               (case selectedSearchResult c of
                  None \<Rightarrow> Some [lineTokens]
                | Some s \<Rightarrow>
                    (case sr_get searchTokens s of
                       None \<Rightarrow> Some [lineTokens]
                     | Some (srow, scolumn, soffset, slength) \<Rightarrow>
                         if r = srow \<and> col = scolumn \<and> lineTokens soffset \<noteq> None
                         then Some [lineTokens,
                                    [soffset \<mapsto> \<lparr> token_length = slength, token = ''selected'' \<rparr>] ]
                         else Some [lineTokens]))))"

text \<open>
  \<open>pushAll\<close> is \<^verbatim>\<open>xs.forEach(x => acc.push(x))\<close>. \<open>getTokens\<close> is
  imported from diff-syntax-mode and is the parameter \<open>gt\<close>:
  \<open>gt n table\<close> is \<^verbatim>\<open>getTokens(n, table)\<close>, \<open>None\<close> for
  \<^verbatim>\<open>null\<close>. \<open>isSel\<close> is \<^verbatim>\<open>DiffSelection.isSelected\<close>.
\<close>

definition pushAll :: "'a list \<Rightarrow> 'a list \<Rightarrow> 'a list" where
  "pushAll acc xs = fold (\<lambda>x acc. acc @ [x]) xs acc"

definition getRowDataPopulated ::
  "(nat \<Rightarrow> ITokens option \<Rightarrow> ILineTokens option) \<Rightarrow> ('sel \<Rightarrow> nat \<Rightarrow> bool) \<Rightarrow> 'sel Component \<Rightarrow>
   SimplifiedDiffRowData \<Rightarrow> int \<Rightarrow> DiffColumn \<Rightarrow> ITokens option \<Rightarrow> IDiffRowData" where
  "getRowDataPopulated gt isSel c d r col toks =
     (let searchTokens = getSearchTokens c r col;
          lineTokens = gt (lineNumber d) toks;
          finalTokens0 = tokens d;
          finalTokens1 = (case searchTokens of
                            None \<Rightarrow> finalTokens0
                          | Some st \<Rightarrow> pushAll finalTokens0 st);
          finalTokens = (case lineTokens of
                           None \<Rightarrow> finalTokens1
                         | Some lt \<Rightarrow> finalTokens1 @ [lt])
      in \<lparr> content = content d,
           lineNumber = lineNumber d,
           diffLineNumber = diffLineNumber d,
           noNewLineIndicator = noNewLineIndicator d,
           tokens = finalTokens,
           isSelected =
             (case diffLineNumber d of
                None \<Rightarrow> False
              | Some dln \<Rightarrow>
                  isInSelection isSel dln r col (getSelection c) (temporarySelection c)) \<rparr>)"

definition createFullRow ::
  "(nat \<Rightarrow> ITokens option \<Rightarrow> ILineTokens option) \<Rightarrow> ('sel \<Rightarrow> nat \<Rightarrow> bool) \<Rightarrow> 'sel Component \<Rightarrow>
   SimplifiedDiffRow \<Rightarrow> int \<Rightarrow> DiffRow" where
  "createFullRow gt isSel c r numRow =
     (case r of
        AddedRow d h \<Rightarrow>
          AddedRow (getRowDataPopulated gt isSel c d numRow
                      (if showSideBySideDiff c then After else Before) (afterTokens c)) h
      | DeletedRow d h \<Rightarrow>
          DeletedRow (getRowDataPopulated gt isSel c d numRow Before (beforeTokens c)) h
      | ModifiedRow b a h \<Rightarrow>
          ModifiedRow (getRowDataPopulated gt isSel c b numRow Before (beforeTokens c))
                      (getRowDataPopulated gt isSel c a numRow After (afterTokens c)) h
      | ContextRow text beforeLineNumber afterLineNumber rowBeforeTokens rowAfterTokens \<Rightarrow>
          (let lineTokens =
                 (case gt beforeLineNumber (beforeTokens c) of
                    Some t \<Rightarrow> Some t
                  | None \<Rightarrow> gt afterLineNumber (afterTokens c));
               beforeTokens0 = rowBeforeTokens;
               afterTokens0 = rowAfterTokens;
               beforeTokens1 = (case lineTokens of
                                  None \<Rightarrow> beforeTokens0
                                | Some t \<Rightarrow> beforeTokens0 @ [t]);
               afterTokens1 = (case lineTokens of
                                 None \<Rightarrow> afterTokens0
                               | Some t \<Rightarrow> afterTokens0 @ [t]);
               beforeTokens2 = (case getSearchTokens c numRow Before of
                                  None \<Rightarrow> beforeTokens1
                                | Some st \<Rightarrow> pushAll beforeTokens1 st);
               afterTokens2 = (case getSearchTokens c numRow After of
                                 None \<Rightarrow> afterTokens1
                               | Some st \<Rightarrow> pushAll afterTokens1 st)
           in ContextRow text beforeLineNumber afterLineNumber beforeTokens2 afterTokens2)
      | HunkRow text e i \<Rightarrow> HunkRow text e i)"

subsection \<open>Drag selection\<close>

definition getDiffLineNumber ::
  "(string \<Rightarrow> string \<Rightarrow> ILineTokens \<times> ILineTokens) \<Rightarrow> 'sel Component \<Rightarrow> int \<Rightarrow> DiffColumn \<Rightarrow>
   error + nat option" where
  "getDiffLineNumber gdt c rowNumber col =
     (case getDiffRows gdt (diff c) (showSideBySideDiff c) (canExpandDiff c) of
        Inl e \<Rightarrow> Inl e
      | Inr rows \<Rightarrow>
          (case (if 0 \<le> rowNumber then array_get rows (nat rowNumber) else None) of
             None \<Rightarrow> Inr None
           | Some (AddedRow d _) \<Rightarrow> Inr (diffLineNumber d)
           | Some (DeletedRow d _) \<Rightarrow> Inr (diffLineNumber d)
           | Some (ModifiedRow b a _) \<Rightarrow>
               Inr (if col = After then diffLineNumber a else diffLineNumber b)
           | Some _ \<Rightarrow> Inr None))"

text \<open>
  The loop of \<open>onEndSelection\<close> over the rows of the drag.
  \<open>withLineSelection\<close> is a method of \<open>DiffSelection\<close> and the parameter
  \<open>wls\<close>. \<open>onEndSelection\<close> returns the component and the selection it
  hands to \<^verbatim>\<open>onIncludeChanged\<close>, \<open>None\<close> when it returns before that.
\<close>

function endSelectionLoop ::
  "('sel \<Rightarrow> nat \<Rightarrow> bool \<Rightarrow> 'sel) \<Rightarrow> (string \<Rightarrow> string \<Rightarrow> ILineTokens \<times> ILineTokens) \<Rightarrow>
   'sel Component \<Rightarrow> int \<Rightarrow> int \<Rightarrow> DiffColumn \<Rightarrow> DiffColumn \<Rightarrow> bool \<Rightarrow> 'sel \<Rightarrow> error + 'sel" where
  "endSelectionLoop wls gdt c r toRow fromColumn toColumn selected selection =
     (if r \<le> toRow then
        (case getDiffLineNumber gdt c r fromColumn of
           Inl e \<Rightarrow> Inl e
         | Inr lineBefore \<Rightarrow>
        (case getDiffLineNumber gdt c r toColumn of
           Inl e \<Rightarrow> Inl e
         | Inr lineAfter \<Rightarrow>
             (let selection1 = (case lineBefore of
                                  None \<Rightarrow> selection
                                | Some l \<Rightarrow> wls selection l selected);
                  selection2 = (case lineAfter of
                                  None \<Rightarrow> selection1
                                | Some l \<Rightarrow> wls selection1 l selected)
              in endSelectionLoop wls gdt c (r + 1) toRow fromColumn toColumn selected
                   selection2)))
      else Inr selection)"
  by pat_completeness auto
termination
  by (relation "measure (\<lambda>(wls, gdt, c, r, toRow, fc, tc, s, sel). nat (toRow + 1 - r))") auto

definition onEndSelection ::
  "('sel \<Rightarrow> nat \<Rightarrow> bool \<Rightarrow> 'sel) \<Rightarrow> (string \<Rightarrow> string \<Rightarrow> ILineTokens \<times> ILineTokens) \<Rightarrow>
   'sel Component \<Rightarrow> error + ('sel Component \<times> 'sel option)" where
  "onEndSelection wls gdt c =
     (case getSelection c of
        None \<Rightarrow> Inr (c, None)
      | Some selection \<Rightarrow>
          (case temporarySelection c of
             None \<Rightarrow> Inr (c, None)
           | Some t \<Rightarrow>
               (let fromRow = min (row (sel_from t)) (row (sel_to t));
                    toRow = max (row (sel_from t)) (row (sel_to t))
                in case endSelectionLoop wls gdt c fromRow toRow (column (sel_from t))
                          (column (sel_to t)) (sel_isSelected t) selection of
                     Inl e \<Rightarrow> Inl e
                   | Inr selection' \<Rightarrow>
                       Inr (c\<lparr> temporarySelection := None \<rparr>, Some selection'))))"

subsection \<open>Whole-file expansion\<close>

text \<open>
  \<open>expandWholeTextDiff\<close> is imported from text-diff-expansion and is the
  parameter \<open>ewtd\<close>; \<open>None\<close> is its \<^verbatim>\<open>undefined\<close>.
\<close>

definition onExpandWholeFile ::
  "(ITextDiff \<Rightarrow> string list \<Rightarrow> ITextDiff option) \<Rightarrow> 'sel Component \<Rightarrow> 'sel Component" where
  "onExpandWholeFile ewtd c =
     (case fileContents c of
        None \<Rightarrow> c
      | Some contents \<Rightarrow>
          (if \<not> canExpandDiff c then c
           else
             (case ewtd (diff c) (newContents contents) of
                None \<Rightarrow> c
              | Some updatedDiff \<Rightarrow> c\<lparr> diffToRestore := Some (diff c), diff := updatedDiff \<rparr>)))"

definition onCollapseExpandedLines :: "'sel Component \<Rightarrow> 'sel Component" where
  "onCollapseExpandedLines c =
     (case diffToRestore c of
        None \<Rightarrow> c
      | Some d \<Rightarrow> c\<lparr> diff := d, diffToRestore := None \<rparr>)"

section \<open>Token overlay: what the claims say\<close>

text \<open>
  \<open>hitsIndexed\<close> holds of search results whose every hit is found in
  \<open>lookup\<close>, at its row and column, under its offset.
\<close>

definition hitsIndexed :: "SearchResults \<Rightarrow> bool" where
  "hitsIndexed sr =
     list_all (\<lambda>(r, c, offset, len).
                 case lookup sr (r, c) of None \<Rightarrow> False | Some lt \<Rightarrow> lt offset \<noteq> None)
       (hits sr)"

text \<open>
  The search-hit tokens of a cell, from the words of the claim: the tokens of
  the hits of the row and column and, when the selected hit is a hit of this
  very row and column, one more token map that marks it as selected.
  \<open>syntaxTokens\<close> are the tokens a lookup contributes: none when it misses.
\<close>

definition selectedHitAt :: "'sel Component \<Rightarrow> int \<Rightarrow> DiffColumn \<Rightarrow> (nat \<times> nat) option" where
  "selectedHitAt c r col =
     (case searchResults c of
        None \<Rightarrow> None
      | Some sr \<Rightarrow>
          (case selectedSearchResult c of
             None \<Rightarrow> None
           | Some s \<Rightarrow>
               (case sr_get sr s of
                  None \<Rightarrow> None
                | Some (hr, hc, offset, len) \<Rightarrow>
                    if hr = r \<and> hc = col then Some (offset, len) else None)))"

definition searchHitTokens :: "'sel Component \<Rightarrow> int \<Rightarrow> DiffColumn \<Rightarrow> ILineTokens list" where
  "searchHitTokens c r col =
     (case searchResults c of
        None \<Rightarrow> []
      | Some sr \<Rightarrow>
          (case lookup sr (r, col) of
             None \<Rightarrow> []
           | Some lt \<Rightarrow>
               lt # (case selectedHitAt c r col of
                       None \<Rightarrow> []
                     | Some (offset, len) \<Rightarrow>
                         [ [offset \<mapsto> \<lparr> token_length = len, token = ''selected'' \<rparr>] ])))"

definition syntaxTokens :: "ILineTokens option \<Rightarrow> ILineTokens list" where
  "syntaxTokens t = (case t of None \<Rightarrow> [] | Some x \<Rightarrow> [x])"

text \<open>
  \<open>rowTokens r col\<close> is the token list of the rendered row \<open>r\<close> in the
  column \<open>col\<close>; an Added or Deleted row has one populated column.
  \<open>foundTokens\<close> is what \<open>getSearchTokens\<close> contributes.
\<close>

fun rowTokens :: "DiffRow \<Rightarrow> DiffColumn \<Rightarrow> ILineTokens list" where
  "rowTokens (AddedRow d h) col = tokens d"
| "rowTokens (DeletedRow d h) col = tokens d"
| "rowTokens (ModifiedRow b a h) col = (if col = Before then tokens b else tokens a)"
| "rowTokens (ContextRow tx bl al bt atk) col = (if col = Before then bt else atk)"
| "rowTokens (HunkRow tx e i) col = []"

definition foundTokens :: "'sel Component \<Rightarrow> int \<Rightarrow> DiffColumn \<Rightarrow> ILineTokens list" where
  "foundTokens c r col = (case getSearchTokens c r col of None \<Rightarrow> [] | Some ts \<Rightarrow> ts)"

section \<open>Search engine: what the claim says\<close>

text \<open>
  The cells of a row that the search scans: none of a hunk header, both
  columns of a Modified row, the before column of a Deleted row, the after
  column of an Added row in side-by-side display and its before column
  otherwise, and of a Context row both columns in side-by-side display and
  the before column otherwise. \<open>hitsOfRow\<close> are the hits of a row: for each
  scanned cell in turn, one hit for each match, with the row index, the
  column, the offset and the length of the match.
\<close>

definition scannedCells :: "bool \<Rightarrow> SimplifiedDiffRow \<Rightarrow> (DiffColumn \<times> string) list" where
  "scannedCells sideBySide r =
     (case r of
        HunkRow tx e i \<Rightarrow> []
      | ContextRow tx bl al bt atk \<Rightarrow>
          (if sideBySide then [(Before, tx), (After, tx)] else [(Before, tx)])
      | ModifiedRow b a h \<Rightarrow> [(Before, content b), (After, content a)]
      | DeletedRow d h \<Rightarrow> [(Before, content d)]
      | AddedRow d h \<Rightarrow> [(if sideBySide then After else Before, content d)])"

definition hitsOfCell :: "Matcher \<Rightarrow> string \<Rightarrow> int \<Rightarrow> DiffColumn \<times> string \<Rightarrow> (int \<times> DiffColumn \<times> nat \<times> nat) list" where
  "hitsOfCell matchAll q r cell =
     concat (map (\<lambda>m. case fst m of None \<Rightarrow> [] | Some offset \<Rightarrow> [(r, fst cell, offset, snd m)])
               (matchAll q (snd cell)))"

definition hitsOfRow ::
  "Matcher \<Rightarrow> string \<Rightarrow> bool \<Rightarrow> nat \<times> SimplifiedDiffRow \<Rightarrow> (int \<times> DiffColumn \<times> nat \<times> nat) list" where
  "hitsOfRow matchAll q sideBySide e =
     concat (map (hitsOfCell matchAll q (int (fst e))) (scannedCells sideBySide (snd e)))"

section \<open>Drag selection: what the claim says\<close>

text \<open>
  \<open>rowAt\<close> is the row at a row number, \<open>None\<close> out of range.
  \<open>lineNumberOf\<close> is the diff line number a row gives for a column: that of
  its cell for an Added or Deleted row, that of the cell of the column for a
  Modified row, and none otherwise. The rows that \<open>contributes\<close> holds of
  are the Added, Deleted and Modified rows. \<open>lineNumbersOfRow\<close> are the
  line numbers a row gives for the start column and the current column of a
  drag, in this order.
\<close>

definition rowAt :: "SimplifiedDiffRow list \<Rightarrow> int \<Rightarrow> SimplifiedDiffRow option" where
  "rowAt rs i = (if 0 \<le> i \<and> i < int (length rs) then Some (rs ! nat i) else None)"

fun lineNumberOf :: "SimplifiedDiffRow option \<Rightarrow> DiffColumn \<Rightarrow> nat option" where
  "lineNumberOf (Some (AddedRow d h)) col = diffLineNumber d"
| "lineNumberOf (Some (DeletedRow d h)) col = diffLineNumber d"
| "lineNumberOf (Some (ModifiedRow b a h)) col =
     (if col = After then diffLineNumber a else diffLineNumber b)"
| "lineNumberOf r col = None"

fun contributes :: "SimplifiedDiffRow option \<Rightarrow> bool" where
  "contributes (Some (AddedRow d h)) = True"
| "contributes (Some (DeletedRow d h)) = True"
| "contributes (Some (ModifiedRow b a h)) = True"
| "contributes r = False"

definition lineNumbersOfRow ::
  "SimplifiedDiffRow option \<Rightarrow> DiffColumn \<Rightarrow> DiffColumn \<Rightarrow> nat list" where
  "lineNumbersOfRow r fromColumn toColumn =
     (case lineNumberOf r fromColumn of None \<Rightarrow> [] | Some l \<Rightarrow> [l]) @
     (case lineNumberOf r toColumn of None \<Rightarrow> [] | Some l \<Rightarrow> [l])"

section \<open>Collaborators modelled for the examples\<close>

text \<open>
  Modelled from the spec: \<^verbatim>\<open>escapeRegExp\<close> (lib/helpers/regex) and the
  regular expression it feeds are not in src. The spec describes the match as
  a global, case-insensitive literal substring match, in which the query is
  never read as a pattern. \<open>literalMatchAll q s\<close> lists the occurrences of
  \<open>q\<close> in \<open>s\<close> from left to right, without overlap, the letters
  \<^verbatim>\<open>a\<close> to \<^verbatim>\<open>z\<close> compared without regard to case; every match has
  the length of \<open>q\<close>. The empty query matches at every position, which the
  search never asks for.
\<close>

definition canonicalize :: "char \<Rightarrow> char" where
  "canonicalize ch =
     (case map_of (zip ''abcdefghijklmnopqrstuvwxyz'' ''ABCDEFGHIJKLMNOPQRSTUVWXYZ'') ch of
        None \<Rightarrow> ch
      | Some u \<Rightarrow> u)"

definition matchesAt :: "string \<Rightarrow> string \<Rightarrow> nat \<Rightarrow> bool" where
  "matchesAt q s i =
     (i + length q \<le> length s \<and>
      map canonicalize (take (length q) (drop i s)) = map canonicalize q)"

function literalMatchesFrom :: "string \<Rightarrow> string \<Rightarrow> nat \<Rightarrow> (nat option \<times> nat) list" where
  "literalMatchesFrom q s i =
     (if length s < i + length q then []
      else if matchesAt q s i
           then (Some i, length q) # literalMatchesFrom q s (i + max 1 (length q))
           else literalMatchesFrom q s (i + 1))"
  by pat_completeness auto
termination
  by (relation "measure (\<lambda>(q, s, i). length s + 1 - i)") auto

definition literalMatchAll :: Matcher where
  "literalMatchAll q s = literalMatchesFrom q s 0"

text \<open>
  Modelled from the spec: \<^verbatim>\<open>getTokens\<close> (diff-syntax-mode) is not in src.
  The spec describes it as the lookup of a line number in a token table, which
  contributes nothing when the table is absent or has no entry for the line.
\<close>

definition lookupTokens :: "nat \<Rightarrow> ITokens option \<Rightarrow> ILineTokens option" where
  "lookupTokens n table = (case table of None \<Rightarrow> None | Some t \<Rightarrow> t n)"

text \<open>
  Modelled from the spec: \<open>DiffSelection\<close> (models/diff) is not in src. The
  spec describes the persisted selection as a mapping from diff line numbers
  to an included flag; the examples keep the set of the included line
  numbers.
\<close>

definition setIsSelected :: "nat set \<Rightarrow> nat \<Rightarrow> bool" where
  "setIsSelected s n = (n \<in> s)"

definition setWithLineSelection :: "nat set \<Rightarrow> nat \<Rightarrow> bool \<Rightarrow> nat set" where
  "setWithLineSelection s n selected = (if selected then insert n s else s - {n})"

text \<open>
  A stand-in for \<^verbatim>\<open>getDiffTokens\<close> in the examples, which marks the whole
  of both lines.
\<close>

definition wholeLineTokens :: "string \<Rightarrow> string \<Rightarrow> ILineTokens \<times> ILineTokens" where
  "wholeLineTokens b a =
     ([0 \<mapsto> \<lparr> token_length = length b, token = ''diff-delete-inner'' \<rparr>],
      [0 \<mapsto> \<lparr> token_length = length a, token = ''diff-add-inner'' \<rparr>])"

section \<open>Example inputs\<close>

text \<open>
  A hunk with a header, a context line, a run of two deleted and three added
  lines, and a closing context line.
\<close>

definition mkLine ::
  "string \<Rightarrow> DiffLineType \<Rightarrow> nat \<Rightarrow> nat option \<Rightarrow> nat option \<Rightarrow> DiffLine" where
  "mkLine t ty n old new =
     \<lparr> line_text = t, line_content = drop 1 t, line_type = ty, originalLineNumber = Some n,
       oldLineNumber = old, newLineNumber = new, noTrailingNewLine = False \<rparr>"

definition exampleHeader :: "DiffLine list" where
  "exampleHeader =
     [mkLine ''@@ -1,4 +1,5 @@'' Hunk 0 None None,
      mkLine '' foo'' Context 1 (Some 1) (Some 1)]"

definition exampleRun :: "DiffLine list" where
  "exampleRun =
     [mkLine ''-bar'' Delete 2 (Some 2) None,
      mkLine ''-baz'' Delete 3 (Some 3) None,
      mkLine ''+Bar'' Add 4 None (Some 2),
      mkLine ''+Baz'' Add 5 None (Some 3),
      mkLine ''+qux'' Add 6 None (Some 4)]"

definition exampleTrailer :: "DiffLine list" where
  "exampleTrailer = [mkLine '' end'' Context 7 (Some 4) (Some 5)]"

definition exampleHunk :: DiffHunk where
  "exampleHunk =
     \<lparr> lines = exampleHeader @ exampleRun @ exampleTrailer, unifiedDiffStart = 0,
       expansionType = ExpansionNone \<rparr>"

definition exampleDiff :: ITextDiff where
  "exampleDiff = \<lparr> diff_text = '''', hunks = [exampleHunk], maxLineNumber = 5 \<rparr>"

text \<open>
  A run with as many added as deleted lines: a short pair, and a pair whose
  added line has 240 characters.
\<close>

definition exampleEqualRun :: "ModifiedLine list" where
  "exampleEqualRun =
     [\<lparr> ml_line = mkLine ''-foo bar'' Delete 1 (Some 1) None, ml_diffLineNumber = 1 \<rparr>,
      \<lparr> ml_line = mkLine ''-short'' Delete 2 (Some 2) None, ml_diffLineNumber = 2 \<rparr>,
      \<lparr> ml_line = mkLine ''+foo baz'' Add 3 None (Some 1), ml_diffLineNumber = 3 \<rparr>,
      \<lparr> ml_line = mkLine (CHR ''+'' # replicate 240 CHR ''x'') Add 4 None (Some 2),
        ml_diffLineNumber = 4 \<rparr>]"

definition exampleComponent :: "nat set Component" where
  "exampleComponent =
     \<lparr> fileContents = Some \<lparr> canBeExpanded = True, newContents = [''foo'', ''Bar'', ''Baz'', ''qux'', ''end''] \<rparr>,
       showSideBySideDiff = True,
       getSelection = Some {3},
       diff = exampleDiff,
       beforeTokens = None,
       afterTokens = None,
       temporarySelection = None,
       hoveredHunk = None,
       isSearching = True,
       searchQuery = None,
       searchResults = None,
       selectedSearchResult = None,
       diffToRestore = None,
       scrolledToRow = None \<rparr>"

text \<open>
  A stand-in for \<^verbatim>\<open>expandWholeTextDiff\<close> in the examples, which only
  records the number of lines of the file.
\<close>

definition markExpanded :: "ITextDiff \<Rightarrow> string list \<Rightarrow> ITextDiff option" where
  "markExpanded d contents = Some (d\<lparr> maxLineNumber := length contents \<rparr>)"

text \<open>
  The component after a search for \<^verbatim>\<open>bar\<close>, which has two hits, in the
  two columns of row 2.
\<close>

definition exampleResults :: SearchResults where
  "exampleResults = sr_add (sr_add emptySearchResults 2 Before 0 3) 2 After 0 3"

definition exampleSearching :: "nat set Component" where
  "exampleSearching =
     exampleComponent\<lparr> searchQuery := Some ''bar'', searchResults := Some exampleResults,
                       selectedSearchResult := Some (Num 0), scrolledToRow := Some 2 \<rparr>"

text \<open>
  Syntax tokens for the lines 1 and 2 of a file, and the component after a
  search for \<^verbatim>\<open>foo\<close>, which has two hits, in the two columns of the
  Context row 1, with the syntax tokens of both files in place.
\<close>

definition exampleLineTokens :: ILineTokens where
  "exampleLineTokens = [0 \<mapsto> \<lparr> token_length = 3, token = ''variable'' \<rparr>]"

definition exampleTokens :: ITokens where
  "exampleTokens = [1 \<mapsto> exampleLineTokens, 2 \<mapsto> exampleLineTokens]"

definition exampleFooResults :: SearchResults where
  "exampleFooResults = sr_add (sr_add emptySearchResults 1 Before 0 3) 1 After 0 3"

definition exampleHighlighted :: "nat set Component" where
  "exampleHighlighted =
     exampleComponent\<lparr> beforeTokens := Some exampleTokens, afterTokens := Some exampleTokens,
                       searchQuery := Some ''foo'', searchResults := Some exampleFooResults,
                       selectedSearchResult := Some (Num 0), scrolledToRow := Some 1 \<rparr>"

text \<open>The example component with an empty pre-image table and the post-image table in place.\<close>

definition exampleHalfHighlighted :: "nat set Component" where
  "exampleHalfHighlighted =
     exampleComponent\<lparr> beforeTokens := Some Map.empty, afterTokens := Some exampleTokens \<rparr>"

text \<open>
  The example component during an additive drag from the before column of
  row 6, which is past the last row, to the after column of row 0.
\<close>

definition exampleDragging :: "nat set Component" where
  "exampleDragging =
     exampleComponent\<lparr> temporarySelection :=
       Some \<lparr> sel_from = \<lparr> column = Before, row = 6 \<rparr>,
              sel_to = \<lparr> column = After, row = 0 \<rparr>,
              sel_isSelected = True \<rparr> \<rparr>"

section \<open>Row classifier: results\<close>

text \<open>
  The loops are unfolded by hand in the proofs below, one iteration at a time.
\<close>

declare diffTokensLoop.simps [simp del] modifiedLoop.simps [simp del]
  deletedLoop.simps [simp del] addedLoop.simps [simp del]

subsection \<open>The loops of \<open>getModifiedRows\<close>\<close>

lemma splitLines_filter:
  "splitLines ls a d = (a @ filter isAdd ls, d @ filter isDelete ls)"
  by (induction ls arbitrary: a d) (auto simp: isAdd_def isDelete_def)

lemma array_at_set: "array_at (array_set xs i v) j = (if j = i then Some v else array_at xs j)"
  by (auto simp: array_at_def array_set_def nth_append)

lemma array_shift_eq: "array_shift xs = (array_at xs 0, tl xs)"
  by (cases xs) (auto simp: array_shift_def array_at_def)

lemma array_at_tl: "array_at (tl xs) j = array_at xs (Suc j)"
  by (cases xs) (auto simp: array_at_def)

lemma array_at_drop: "array_at (drop m xs) j = array_at xs (m + j)"
  by (auto simp: array_at_def)

lemma array_at_Nil: "array_at [] j = None"
  by (simp add: array_at_def)

lemma diffTokensLoop_result:
  assumes "length a = length d"
  shows "\<exists>tb' ta'. diffTokensLoop gdt a d i tb ta = Inr (tb', ta') \<and>
     (\<forall>j. array_at tb' j =
        (if i \<le> j \<and> j < length d \<and> shortPair a d j
         then Some (fst (pairTokens gdt a d j)) else array_at tb j)) \<and>
     (\<forall>j. array_at ta' j =
        (if i \<le> j \<and> j < length d \<and> shortPair a d j
         then Some (snd (pairTokens gdt a d j)) else array_at ta j))"
proof (induction "length d - i" arbitrary: i tb ta)
  case 0
  then have "\<not> i < length d" by simp
  then show ?case by (subst diffTokensLoop.simps) auto
next
  case (Suc n)
  then have lt: "i < length d" and n: "n = length d - (i + 1)" by auto
  have step: "\<And>j. (i \<le> j \<and> j < length d \<and> shortPair a d j) =
      (j = i \<and> shortPair a d i \<or> i + 1 \<le> j \<and> j < length d \<and> shortPair a d j)"
    using lt by (auto simp: not_less_eq_eq le_Suc_eq)
  show ?case
  proof (cases "shortPair a d i")
    case True
    obtain b af where g: "pairTokens gdt a d i = (b, af)"
      by (cases "pairTokens gdt a d i")
    from Suc.hyps(1)[OF n, of "array_set tb i b" "array_set ta i af"]
    obtain tb' ta' where
      r: "diffTokensLoop gdt a d (i + 1) (array_set tb i b) (array_set ta i af) = Inr (tb', ta')"
      and B: "\<And>j. array_at tb' j =
        (if i + 1 \<le> j \<and> j < length d \<and> shortPair a d j
         then Some (fst (pairTokens gdt a d j)) else array_at (array_set tb i b) j)"
      and A: "\<And>j. array_at ta' j =
        (if i + 1 \<le> j \<and> j < length d \<and> shortPair a d j
         then Some (snd (pairTokens gdt a d j)) else array_at (array_set ta i af) j)"
      by blast
    have e: "diffTokensLoop gdt a d i tb ta = Inr (tb', ta')"
      using lt True g r assms
      by (subst diffTokensLoop.simps) (simp add: array_get_def shortPair_def pairTokens_def)
    show ?thesis
      unfolding e step using B A True g by (auto simp: array_at_set)
  next
    case False
    from Suc.hyps(1)[OF n, of tb ta]
    obtain tb' ta' where
      r: "diffTokensLoop gdt a d (i + 1) tb ta = Inr (tb', ta')"
      and B: "\<And>j. array_at tb' j =
        (if i + 1 \<le> j \<and> j < length d \<and> shortPair a d j
         then Some (fst (pairTokens gdt a d j)) else array_at tb j)"
      and A: "\<And>j. array_at ta' j =
        (if i + 1 \<le> j \<and> j < length d \<and> shortPair a d j
         then Some (snd (pairTokens gdt a d j)) else array_at ta j)"
      by blast
    have e: "diffTokensLoop gdt a d i tb ta = Inr (tb', ta')"
      using lt False r assms
      by (subst diffTokensLoop.simps) (auto simp: array_get_def shortPair_def)
    show ?thesis
      unfolding e step using B A False by auto
  qed
qed

lemma getDataFromLine_old:
  "oldLineNumber (ml_line l) \<noteq> None \<Longrightarrow>
   getDataFromLine l OldLineNumber t = Inr (beforeDataOf l t)"
  by (auto simp: getDataFromLine_def forceUnwrap_def beforeDataOf_def rowData_def)

lemma getDataFromLine_new:
  "newLineNumber (ml_line l) \<noteq> None \<Longrightarrow>
   getDataFromLine l NewLineNumber t = Inr (afterDataOf l t)"
  by (auto simp: getDataFromLine_def forceUnwrap_def afterDataOf_def rowData_def)

lemma map_upt_shift:
  "map (\<lambda>k. f (array_at (tl xs) (k - Suc i)) k) [Suc i..<n] =
   map (\<lambda>k. f (array_at xs (k - i)) k) [Suc i..<n]"
  by (rule map_cong) (auto simp: array_at_tl Suc_diff_Suc)

lemma deletedLoop_result:
  assumes "hasOld d"
  shows "i \<le> length d \<Longrightarrow>
    deletedLoop d h i tb out =
      Inr (drop (length d - i) tb,
           out @ map (\<lambda>k. DeletedRow (beforeDataOf (d ! k) (array_at tb (k - i))) h) [i..<length d])"
proof (induction "length d - i" arbitrary: i tb out)
  case 0
  then show ?case by (subst deletedLoop.simps) simp
next
  case (Suc n)
  then have lt: "i < length d" and n: "n = length d - Suc i" and le: "Suc i \<le> length d" by auto
  have old: "oldLineNumber (ml_line (d ! i)) \<noteq> None"
    using assms lt by (simp add: hasOld_def list_all_length)
  have dr: "drop (length d - Suc i) (tl tb) = drop (length d - i) tb"
    using lt by (simp add: drop_Suc[symmetric] Suc_diff_Suc tl_drop drop_tl)
  show ?case
    using lt
    by (subst deletedLoop.simps)
       (simp add: array_get_def forceUnwrap_def getDataFromLine_old[OF old] array_shift_eq
          Suc.hyps(1)[OF n le] dr upt_conv_Cons[OF lt] map_upt_shift[where f="\<lambda>t k. DeletedRow (beforeDataOf (d ! k) t) h"])
qed

lemma addedLoop_result:
  assumes "hasNew a"
  shows "i \<le> length a \<Longrightarrow>
    addedLoop a h i ta out =
      Inr (drop (length a - i) ta,
           out @ map (\<lambda>k. AddedRow (afterDataOf (a ! k) (array_at ta (k - i))) h) [i..<length a])"
proof (induction "length a - i" arbitrary: i ta out)
  case 0
  then show ?case by (subst addedLoop.simps) simp
next
  case (Suc n)
  then have lt: "i < length a" and n: "n = length a - Suc i" and le: "Suc i \<le> length a" by auto
  have new: "newLineNumber (ml_line (a ! i)) \<noteq> None"
    using assms lt by (simp add: hasNew_def list_all_length)
  have dr: "drop (length a - Suc i) (tl ta) = drop (length a - i) ta"
    using lt by (simp add: drop_Suc[symmetric] Suc_diff_Suc tl_drop drop_tl)
  show ?case
    using lt
    by (subst addedLoop.simps)
       (simp add: array_get_def forceUnwrap_def getDataFromLine_new[OF new] array_shift_eq
          Suc.hyps(1)[OF n le] dr upt_conv_Cons[OF lt] map_upt_shift[where f="\<lambda>t k. AddedRow (afterDataOf (a ! k) t) h"])
qed

lemma modifiedLoop_unified:
  "modifiedLoop False a d h i tb ta out = Inr (i, tb, ta, out)"
  by (subst modifiedLoop.simps) simp

lemma map_upt_shift2:
  "map (\<lambda>k. f (array_at (tl xs) (k - Suc i)) (array_at (tl ys) (k - Suc i)) k) [Suc i..<n] =
   map (\<lambda>k. f (array_at xs (k - i)) (array_at ys (k - i)) k) [Suc i..<n]"
  by (rule map_cong) (auto simp: array_at_tl Suc_diff_Suc)

lemma modifiedLoop_sideBySide:
  assumes "hasOld d" "hasNew a"
  shows "i \<le> min (length a) (length d) \<Longrightarrow>
    modifiedLoop True a d h i tb ta out =
      Inr (min (length a) (length d),
           drop (min (length a) (length d) - i) tb,
           drop (min (length a) (length d) - i) ta,
           out @ map (\<lambda>k. ModifiedRow (beforeDataOf (d ! k) (array_at tb (k - i)))
                                       (afterDataOf (a ! k) (array_at ta (k - i))) h)
                   [i..<min (length a) (length d)])"
proof (induction "min (length a) (length d) - i" arbitrary: i tb ta out)
  case 0
  then have "i = min (length a) (length d)" by simp
  then show ?case by (subst modifiedLoop.simps) auto
next
  case (Suc n)
  let ?m = "min (length a) (length d)"
  from Suc have lt: "i < ?m" and n: "n = ?m - Suc i" and le: "Suc i \<le> ?m" by auto
  then have lta: "i < length a" and ltd: "i < length d" by auto
  have old: "oldLineNumber (ml_line (d ! i)) \<noteq> None"
    using assms ltd by (simp add: hasOld_def list_all_length)
  have new: "newLineNumber (ml_line (a ! i)) \<noteq> None"
    using assms lta by (simp add: hasNew_def list_all_length)
  have dr: "\<And>xs::ILineTokens option list. drop (?m - Suc i) (tl xs) = drop (?m - i) xs"
    using lt by (simp add: drop_Suc[symmetric] Suc_diff_Suc tl_drop drop_tl)
  show ?case
    using lta ltd
    by (subst modifiedLoop.simps)
       (simp add: array_get_def forceUnwrap_def getDataFromLine_old[OF old]
          getDataFromLine_new[OF new] array_shift_eq
          Suc.hyps(1)[OF n le] dr upt_conv_Cons[OF lt]
          map_upt_shift2[where f="\<lambda>t u k. ModifiedRow (beforeDataOf (d ! k) t) (afterDataOf (a ! k) u) h"])
qed

lemma tokens_step:
  "\<exists>tb ta. (if length a = length d then diffTokensLoop gdt a d 0 [] [] else Inr ([], [])) = Inr (tb, ta) \<and>
     (\<forall>j. array_at tb j = map_option fst (emphasisOf gdt a d j)) \<and>
     (\<forall>j. array_at ta j = map_option snd (emphasisOf gdt a d j))"
proof (cases "length a = length d")
  case True
  from diffTokensLoop_result[OF True, of gdt 0 "[]" "[]"]
  show ?thesis using True by (auto simp: emphasisOf_def array_at_Nil)
next
  case False
  then show ?thesis by (simp add: emphasisOf_def array_at_Nil)
qed

lemma map_upt_drop:
  "map (\<lambda>k. f (array_at (drop m xs) (k - m)) k) [m..<n] = map (\<lambda>k. f (array_at xs k) k) [m..<n]"
  by (rule map_cong) (auto simp: array_at_drop)

lemma getModifiedRows_unfold:
  "run = first # rest \<Longrightarrow>
   getModifiedRows gdt run sbs =
     (case (if length (filter isAdd run) = length (filter isDelete run)
            then diffTokensLoop gdt (filter isAdd run) (filter isDelete run) 0 [] []
            else Inr ([], [])) of
        Inl e \<Rightarrow> Inl e
      | Inr (diffTokensBefore, diffTokensAfter) \<Rightarrow>
     (case modifiedLoop sbs (filter isAdd run) (filter isDelete run) (ml_diffLineNumber first) 0
             diffTokensBefore diffTokensAfter [] of
        Inl e \<Rightarrow> Inl e
      | Inr (indexModifiedRow, diffTokensBefore1, diffTokensAfter1, output1) \<Rightarrow>
     (case deletedLoop (filter isDelete run) (ml_diffLineNumber first) indexModifiedRow
             diffTokensBefore1 output1 of
        Inl e \<Rightarrow> Inl e
      | Inr (diffTokensBefore2, output2) \<Rightarrow>
     (case addedLoop (filter isAdd run) (ml_diffLineNumber first) indexModifiedRow
             diffTokensAfter1 output2 of
        Inl e \<Rightarrow> Inl e
      | Inr (diffTokensAfter2, output3) \<Rightarrow> Inr output3))))"
proof -
  assume run: "run = first # rest"
  show ?thesis
    unfolding run getModifiedRows_def splitLines_filter
    by (simp add: Let_def del: filter.simps)
qed

lemma getModifiedRows_paired:
  assumes d: "hasOld (filter isDelete run)" and a: "hasNew (filter isAdd run)"
  shows "getModifiedRows gdt run sbs = Inr (pairedRows gdt sbs run)"
proof (cases run)
  case Nil
  then show ?thesis by (simp add: getModifiedRows_def pairedRows_def)
next
  case (Cons first rest)
  let ?a = "filter isAdd run" and ?d = "filter isDelete run"
  obtain tb ta where
    t: "(if length ?a = length ?d then diffTokensLoop gdt ?a ?d 0 [] [] else Inr ([], [])) = Inr (tb, ta)"
    and B: "\<And>j. array_at tb j = map_option fst (emphasisOf gdt ?a ?d j)"
    and A: "\<And>j. array_at ta j = map_option snd (emphasisOf gdt ?a ?d j)"
    using tokens_step[of ?a ?d gdt] by blast
  let ?h = "ml_diffLineNumber first"
  have hd: "ml_diffLineNumber (hd run) = ?h" using Cons by simp
  have unf: "getModifiedRows gdt run sbs =
      (case modifiedLoop sbs ?a ?d ?h 0 tb ta [] of
         Inl e \<Rightarrow> Inl e
       | Inr (indexModifiedRow, diffTokensBefore1, diffTokensAfter1, output1) \<Rightarrow>
          (case deletedLoop ?d ?h indexModifiedRow diffTokensBefore1 output1 of
             Inl e \<Rightarrow> Inl e
           | Inr (diffTokensBefore2, output2) \<Rightarrow>
              (case addedLoop ?a ?h indexModifiedRow diffTokensAfter1 output2 of
                 Inl e \<Rightarrow> Inl e
               | Inr (diffTokensAfter2, output3) \<Rightarrow> Inr output3)))"
    unfolding getModifiedRows_unfold[OF Cons] t by simp
  show ?thesis
  proof (cases sbs)
    case True
    then have sbs: "sbs = True" by simp
    show ?thesis
      apply (subst unf)
      unfolding sbs
      by (simp add: modifiedLoop_sideBySide[OF d a] deletedLoop_result[OF d] addedLoop_result[OF a]
            map_upt_drop[where f="\<lambda>t k. DeletedRow (beforeDataOf (?d ! k) t) ?h"]
            map_upt_drop[where f="\<lambda>t k. AddedRow (afterDataOf (?a ! k) t) ?h"]
            pairedRows_def Let_def B A hd)
  next
    case False
    then have sbs: "sbs = False" by simp
    show ?thesis
      apply (subst unf)
      unfolding sbs
      by (simp add: modifiedLoop_unified deletedLoop_result[OF d] addedLoop_result[OF a]
            pairedRows_def Let_def B A hd)
  qed
qed

subsection \<open>The loop of \<open>getDiffRowsFromHunk\<close>\<close>

lemma flush_prefix:
  "flushModifiedLines gdt sbs ml (rs0 @ rs) = withRowsBefore rs0 (flushModifiedLines gdt sbs ml rs)"
  by (auto simp: flushModifiedLines_def withRowsBefore_def split: sum.splits)

lemma hunkRowsFrom_Nil:
  "hunkRowsFrom gdt idx hunk sbs exp [] ml rows = flushModifiedLines gdt sbs ml rows"
  by (simp add: hunkRowsFrom_def)

lemma hunkRowsFrom_run:
  "isAddOrDelete line \<Longrightarrow>
   hunkRowsFrom gdt idx hunk sbs exp ((num, line) # rest) ml rows =
   hunkRowsFrom gdt idx hunk sbs exp rest
     (ml @ [\<lparr> ml_line = line, ml_diffLineNumber = unifiedDiffStart hunk + num \<rparr>]) rows"
  by (auto simp: hunkRowsFrom_def isAddOrDelete_def)

lemma hunkRowsFrom_other:
  "\<not> isAddOrDelete line \<Longrightarrow>
   hunkRowsFrom gdt idx hunk sbs exp ((num, line) # rest) ml rows =
   (case flushModifiedLines gdt sbs ml rows of
      Inl e \<Rightarrow> Inl e
    | Inr rows1 \<Rightarrow>
        (case rowOfLine idx hunk exp num line of
           Inl e \<Rightarrow> Inl e
         | Inr r \<Rightarrow> hunkRowsFrom gdt idx hunk sbs exp rest [] (rows1 @ [r])))"
  by (auto simp: hunkRowsFrom_def isAddOrDelete_def rowOfLine_def split: sum.splits option.splits)

lemma hunkRowsFrom_prefix:
  "hunkRowsFrom gdt idx hunk sbs exp es ml (rs0 @ rs) =
   withRowsBefore rs0 (hunkRowsFrom gdt idx hunk sbs exp es ml rs)"
proof (induction es arbitrary: ml rs)
  case Nil
  then show ?case by (simp add: hunkRowsFrom_Nil flush_prefix)
next
  case (Cons e es)
  obtain num line where e: "e = (num, line)" by (cases e)
  show ?case
  proof (cases "isAddOrDelete line")
    case True
    then show ?thesis unfolding e by (simp add: hunkRowsFrom_run Cons.IH)
  next
    case False
    show ?thesis
      unfolding e hunkRowsFrom_other[OF False] flush_prefix
      using Cons.IH[of "[]"]
      by (auto simp: withRowsBefore_def split: sum.splits)
  qed
qed

lemma numberedLines_Cons:
  "numberedLines hunk k (l # ls) =
   \<lparr> ml_line = l, ml_diffLineNumber = unifiedDiffStart hunk + k \<rparr> # numberedLines hunk (Suc k) ls"
  by (simp add: numberedLines_def)

lemma hunkRowsFrom_accumulate:
  "list_all isAddOrDelete run \<Longrightarrow>
   hunkRowsFrom gdt idx hunk sbs exp (enumerate k run @ rest) ml rows =
   hunkRowsFrom gdt idx hunk sbs exp rest (ml @ numberedLines hunk k run) rows"
proof (induction run arbitrary: k ml)
  case Nil
  then show ?case by (simp add: numberedLines_def)
next
  case (Cons l ls)
  then show ?case by (simp add: hunkRowsFrom_run numberedLines_Cons)
qed

lemma hunkRowsFrom_flush:
  assumes "startsWithOther ls" "ml \<noteq> []" "getModifiedRows gdt ml sbs = Inr p"
  shows "hunkRowsFrom gdt idx hunk sbs exp (enumerate k ls) ml rows =
         withRowsBefore (rows @ p) (hunkRowsFrom gdt idx hunk sbs exp (enumerate k ls) [] [])"
proof (cases ls)
  case Nil
  then show ?thesis using assms
    by (simp add: hunkRowsFrom_Nil flushModifiedLines_def withRowsBefore_def)
next
  case (Cons l ls')
  then have l: "\<not> isAddOrDelete l" using assms(1) by (simp add: startsWithOther_def)
  have f1: "flushModifiedLines gdt sbs ml rows = Inr (rows @ p)"
    using assms by (simp add: flushModifiedLines_def)
  have f2: "flushModifiedLines gdt sbs [] [] = Inr []"
    by (simp add: flushModifiedLines_def)
  show ?thesis
    unfolding Cons enumerate_simps hunkRowsFrom_other[OF l] f1 f2
    using hunkRowsFrom_prefix[of gdt idx hunk sbs exp "enumerate (Suc k) ls'" "[]" "rows @ p"]
    by (auto simp: split: sum.splits simp: withRowsBefore_def)
qed

lemma hunkRowsFrom_append:
  "\<not> isAddOrDelete x \<Longrightarrow>
   hunkRowsFrom gdt idx hunk sbs exp (es @ [(n, x)] @ rest) ml rows =
   (case hunkRowsFrom gdt idx hunk sbs exp (es @ [(n, x)]) ml rows of
      Inl e \<Rightarrow> Inl e
    | Inr rb \<Rightarrow> hunkRowsFrom gdt idx hunk sbs exp rest [] rb)"
proof (induction es arbitrary: ml rows)
  case Nil
  then show ?case
    by (auto simp: hunkRowsFrom_other hunkRowsFrom_Nil flushModifiedLines_def split: sum.splits)
next
  case (Cons e es)
  obtain num line where e: "e = (num, line)" by (cases e)
  show ?case
  proof (cases "isAddOrDelete line")
    case True
    then show ?thesis unfolding e using Cons by (simp add: hunkRowsFrom_run)
  next
    case False
    show ?thesis
      unfolding e append_Cons hunkRowsFrom_other[OF False]
      using Cons by (auto split: sum.splits)
  qed
qed

lemma hunkRowsFrom_shift:
  assumes "unifiedDiffStart hunk' = unifiedDiffStart hunk + k"
    and "expansionType hunk' = expansionType hunk"
  shows "hunkRowsFrom gdt idx hunk sbs exp (enumerate (k + j) ls) ml rows =
         hunkRowsFrom gdt idx hunk' sbs exp (enumerate j ls) ml rows"
proof (induction ls arbitrary: j ml rows)
  case Nil
  then show ?case by (simp add: hunkRowsFrom_Nil)
next
  case (Cons l ls)
  have s: "enumerate (Suc (k + j)) ls = enumerate (k + Suc j) ls" by simp
  have r: "rowOfLine idx hunk exp (k + j) l = rowOfLine idx hunk' exp j l"
    using assms by (auto simp: rowOfLine_def add.assoc split: option.splits)
  show ?case
  proof (cases "isAddOrDelete l")
    case True
    then show ?thesis
      using Cons.IH[of "Suc j"] by (simp add: hunkRowsFrom_run assms add.assoc)
  next
    case False
    then show ?thesis
      using Cons.IH[of "Suc j"] r by (auto simp: hunkRowsFrom_other split: sum.splits)
  qed
qed

lemma getDiffRowsFromHunk_hunkRowsFrom:
  "getDiffRowsFromHunk gdt idx hunk sbs exp =
   hunkRowsFrom gdt idx hunk sbs exp (enumerate 0 (lines hunk)) [] []"
  by (simp add: getDiffRowsFromHunk_def hunkRowsFrom_def)

lemma numberedLines_hasOld:
  "wellNumbered ls \<Longrightarrow> hasOld (filter isDelete (numberedLines hunk k ls))"
  by (induction ls arbitrary: k)
     (auto simp: numberedLines_Cons wellNumbered_def hasOld_def isDelete_def numberedLines_def)

lemma numberedLines_hasNew:
  "wellNumbered ls \<Longrightarrow> hasNew (filter isAdd (numberedLines hunk k ls))"
  by (induction ls arbitrary: k)
     (auto simp: numberedLines_Cons wellNumbered_def hasNew_def isAdd_def numberedLines_def)

lemma run_rows:
  assumes lines: "lines hunk = pre @ run @ post"
    and run: "run \<noteq> []" "list_all isAddOrDelete run" "wellNumbered run"
    and pre: "endsWithOther pre"
    and post: "startsWithOther post"
  shows "getDiffRowsFromHunk gdt idx hunk sbs exp =
     (case getDiffRowsFromHunk gdt idx (hunk\<lparr>lines := pre\<rparr>) sbs exp of
        Inl e \<Rightarrow> Inl e
      | Inr rowsBefore \<Rightarrow>
          (case getDiffRowsFromHunk gdt idx
                  (hunk\<lparr>lines := post,
                         unifiedDiffStart := unifiedDiffStart hunk + (length pre + length run)\<rparr>)
                  sbs exp of
             Inl e \<Rightarrow> Inl e
           | Inr rowsAfter \<Rightarrow>
               Inr (rowsBefore @ pairedRows gdt sbs (numberedLines hunk (length pre) run) @
                    rowsAfter)))"
proof -
  let ?F = "hunkRowsFrom gdt idx hunk sbs exp"
  let ?ml = "numberedLines hunk (length pre) run"
  let ?post = "enumerate (length pre + length run) post"
  let ?hpost = "hunk\<lparr>lines := post,
                      unifiedDiffStart := unifiedDiffStart hunk + (length pre + length run)\<rparr>"
  have enum: "enumerate 0 (lines hunk) =
      enumerate 0 pre @ enumerate (length pre) run @ ?post"
    by (simp add: lines enumerate_append_eq)
  have ml_ne: "?ml \<noteq> []" using run(1) by (cases run) (simp_all add: numberedLines_Cons)
  have paired: "getModifiedRows gdt ?ml sbs = Inr (pairedRows gdt sbs ?ml)"
    by (rule getModifiedRows_paired[OF numberedLines_hasOld[OF run(3)] numberedLines_hasNew[OF run(3)] ])
  have after: "?F ?post [] [] = getDiffRowsFromHunk gdt idx ?hpost sbs exp"
    unfolding getDiffRowsFromHunk_hunkRowsFrom
    using hunkRowsFrom_shift[of ?hpost hunk "length pre + length run" gdt idx sbs exp 0 post "[]" "[]"]
    by simp
  have before: "?F (enumerate 0 pre) [] [] = getDiffRowsFromHunk gdt idx (hunk\<lparr>lines := pre\<rparr>) sbs exp"
    unfolding getDiffRowsFromHunk_hunkRowsFrom
    using hunkRowsFrom_shift[of "hunk\<lparr>lines := pre\<rparr>" hunk 0 gdt idx sbs exp 0 pre "[]" "[]"]
    by simp
  have tail: "\<And>rb. ?F (enumerate (length pre) run @ ?post) [] rb =
      withRowsBefore (rb @ pairedRows gdt sbs ?ml) (?F ?post [] [])"
    using hunkRowsFrom_accumulate[OF run(2), of gdt idx hunk sbs exp "length pre" ?post "[]"]
      hunkRowsFrom_flush[OF post ml_ne paired, of idx hunk exp "length pre + length run"]
    by simp
  have split: "?F (enumerate 0 pre @ enumerate (length pre) run @ ?post) [] [] =
      (case ?F (enumerate 0 pre) [] [] of
         Inl e \<Rightarrow> Inl e
       | Inr rb \<Rightarrow> ?F (enumerate (length pre) run @ ?post) [] rb)"
  proof (cases pre rule: rev_cases)
    case Nil
    then show ?thesis by (simp add: hunkRowsFrom_Nil flushModifiedLines_def)
  next
    case (snoc pre' x)
    then have x: "\<not> isAddOrDelete x" using pre by (simp add: endsWithOther_def)
    have e: "enumerate 0 pre = enumerate 0 pre' @ [(length pre', x)]"
      unfolding snoc by (simp add: enumerate_append_eq)
    show ?thesis
      unfolding e
      using hunkRowsFrom_append[OF x, of gdt idx hunk sbs exp "enumerate 0 pre'" "length pre'"
          "enumerate (length pre) run @ ?post" "[]" "[]"]
      by (simp only: append_assoc)
  qed
  show ?thesis
    unfolding getDiffRowsFromHunk_hunkRowsFrom[of gdt idx hunk] enum split tail before after
    by (simp add: withRowsBefore_def split: sum.splits)
qed

text \<open>
  Claim C1. Let \<open>run\<close> be a run of added and deleted lines of a hunk, between
  the lines \<open>pre\<close> and \<open>post\<close>. The rows of the hunk are the rows of
  \<open>pre\<close>, then the rows of the run, then the rows of \<open>post\<close>. The rows of
  the run are \<open>pairedRows\<close>: in side-by-side display,
  \<open>min (length added) (length deleted)\<close> Modified rows that pair
  \<open>deleted ! i\<close> with \<open>added ! i\<close>, then the unpaired deleted lines as
  Deleted rows, then the unpaired added lines as Added rows, all in order; in
  unified display, all deleted lines as Deleted rows and then all added lines
  as Added rows. Every one of these rows carries the diff line number of the
  first line of the run, \<open>unifiedDiffStart hunk + length pre\<close>.
\<close>

theorem run_is_paired_within_hunk:
  assumes lines: "lines hunk = pre @ run @ post"
    and run: "run \<noteq> []" "list_all isAddOrDelete run" "wellNumbered run"
    and pre: "endsWithOther pre"
    and post: "startsWithOther post"
  shows "getDiffRowsFromHunk gdt idx hunk sbs exp =
     (case getDiffRowsFromHunk gdt idx (hunk\<lparr>lines := pre\<rparr>) sbs exp of
        Inl e \<Rightarrow> Inl e
      | Inr rowsBefore \<Rightarrow>
          (case getDiffRowsFromHunk gdt idx
                  (hunk\<lparr>lines := post,
                         unifiedDiffStart := unifiedDiffStart hunk + (length pre + length run)\<rparr>)
                  sbs exp of
             Inl e \<Rightarrow> Inl e
           | Inr rowsAfter \<Rightarrow>
               Inr (rowsBefore @ pairedRows gdt sbs (numberedLines hunk (length pre) run) @
                    rowsAfter))) \<and>
     ml_diffLineNumber (hd (numberedLines hunk (length pre) run)) =
       unifiedDiffStart hunk + length pre"
proof -
  have "ml_diffLineNumber (hd (numberedLines hunk (length pre) run)) =
      unifiedDiffStart hunk + length pre"
    using run(1) by (cases run) (simp_all add: numberedLines_Cons)
  then show ?thesis
    using run_rows[OF lines run pre post] by simp
qed

lemma example_run_facts:
  "lines exampleHunk = exampleHeader @ exampleRun @ exampleTrailer"
  "exampleRun \<noteq> []"
  "list_all isAddOrDelete exampleRun"
  "wellNumbered exampleRun"
  "endsWithOther exampleHeader"
  "startsWithOther exampleTrailer"
  by (simp_all add: exampleHunk_def exampleRun_def exampleHeader_def exampleTrailer_def
      isAddOrDelete_def wellNumbered_def endsWithOther_def startsWithOther_def mkLine_def)

lemma example_upt: "[0..<2] = [0, 1]" "[2..<2] = []" "[2..<3] = [2]" "[0..<3] = [0, 1, 2]"
  by (simp_all add: upt_rec)

lemma example_header_rows:
  "getDiffRowsFromHunk wholeLineTokens 0 (exampleHunk\<lparr>lines := exampleHeader\<rparr>) sbs True =
     Inr [HunkRow ''@@ -1,4 +1,5 @@'' ExpansionNone 0, ContextRow ''foo'' 1 1 [] [] ]"
  by (simp add: getDiffRowsFromHunk_def exampleHunk_def exampleHeader_def mkLine_def
      flushModifiedLines_def)

lemma example_trailer_rows:
  "getDiffRowsFromHunk wholeLineTokens 0
     (exampleHunk\<lparr>lines := exampleTrailer,
        unifiedDiffStart := unifiedDiffStart exampleHunk + (length exampleHeader + length exampleRun)\<rparr>)
     sbs True = Inr [ContextRow ''end'' 4 5 [] [] ]"
  by (simp add: getDiffRowsFromHunk_def exampleHunk_def exampleTrailer_def mkLine_def
      flushModifiedLines_def)

lemma example_paired_rows:
  "pairedRows wholeLineTokens True (numberedLines exampleHunk (length exampleHeader) exampleRun) =
     [ModifiedRow \<lparr> content = ''bar'', lineNumber = 2, diffLineNumber = Some 2,
                    noNewLineIndicator = False, tokens = [] \<rparr>
                  \<lparr> content = ''Bar'', lineNumber = 2, diffLineNumber = Some 4,
                    noNewLineIndicator = False, tokens = [] \<rparr> 2,
      ModifiedRow \<lparr> content = ''baz'', lineNumber = 3, diffLineNumber = Some 3,
                    noNewLineIndicator = False, tokens = [] \<rparr>
                  \<lparr> content = ''Baz'', lineNumber = 3, diffLineNumber = Some 5,
                    noNewLineIndicator = False, tokens = [] \<rparr> 2,
      AddedRow \<lparr> content = ''qux'', lineNumber = 4, diffLineNumber = Some 6,
                 noNewLineIndicator = False, tokens = [] \<rparr> 2]"
  by (simp add: pairedRows_def numberedLines_def exampleHunk_def exampleHeader_def exampleRun_def
      mkLine_def isAdd_def isDelete_def Let_def example_upt beforeDataOf_def afterDataOf_def
      rowData_def emphasisOf_def)

lemma example_unpaired_rows:
  "pairedRows wholeLineTokens False (numberedLines exampleHunk (length exampleHeader) exampleRun) =
     [DeletedRow \<lparr> content = ''bar'', lineNumber = 2, diffLineNumber = Some 2,
                   noNewLineIndicator = False, tokens = [] \<rparr> 2,
      DeletedRow \<lparr> content = ''baz'', lineNumber = 3, diffLineNumber = Some 3,
                   noNewLineIndicator = False, tokens = [] \<rparr> 2,
      AddedRow \<lparr> content = ''Bar'', lineNumber = 2, diffLineNumber = Some 4,
                 noNewLineIndicator = False, tokens = [] \<rparr> 2,
      AddedRow \<lparr> content = ''Baz'', lineNumber = 3, diffLineNumber = Some 5,
                 noNewLineIndicator = False, tokens = [] \<rparr> 2,
      AddedRow \<lparr> content = ''qux'', lineNumber = 4, diffLineNumber = Some 6,
                 noNewLineIndicator = False, tokens = [] \<rparr> 2]"
  by (simp add: pairedRows_def numberedLines_def exampleHunk_def exampleHeader_def exampleRun_def
      mkLine_def isAdd_def isDelete_def Let_def example_upt beforeDataOf_def afterDataOf_def
      rowData_def emphasisOf_def)

theorem run_is_paired_within_hunk_witness:
  "getDiffRowsFromHunk wholeLineTokens 0 exampleHunk True True =
     Inr [HunkRow ''@@ -1,4 +1,5 @@'' ExpansionNone 0,
          ContextRow ''foo'' 1 1 [] [],
          ModifiedRow \<lparr> content = ''bar'', lineNumber = 2, diffLineNumber = Some 2,
                        noNewLineIndicator = False, tokens = [] \<rparr>
                      \<lparr> content = ''Bar'', lineNumber = 2, diffLineNumber = Some 4,
                        noNewLineIndicator = False, tokens = [] \<rparr> 2,
          ModifiedRow \<lparr> content = ''baz'', lineNumber = 3, diffLineNumber = Some 3,
                        noNewLineIndicator = False, tokens = [] \<rparr>
                      \<lparr> content = ''Baz'', lineNumber = 3, diffLineNumber = Some 5,
                        noNewLineIndicator = False, tokens = [] \<rparr> 2,
          AddedRow \<lparr> content = ''qux'', lineNumber = 4, diffLineNumber = Some 6,
                     noNewLineIndicator = False, tokens = [] \<rparr> 2,
          ContextRow ''end'' 4 5 [] [] ] \<and>
   getDiffRowsFromHunk wholeLineTokens 0 exampleHunk False True =
     Inr [HunkRow ''@@ -1,4 +1,5 @@'' ExpansionNone 0,
          ContextRow ''foo'' 1 1 [] [],
          DeletedRow \<lparr> content = ''bar'', lineNumber = 2, diffLineNumber = Some 2,
                       noNewLineIndicator = False, tokens = [] \<rparr> 2,
          DeletedRow \<lparr> content = ''baz'', lineNumber = 3, diffLineNumber = Some 3,
                       noNewLineIndicator = False, tokens = [] \<rparr> 2,
          AddedRow \<lparr> content = ''Bar'', lineNumber = 2, diffLineNumber = Some 4,
                     noNewLineIndicator = False, tokens = [] \<rparr> 2,
          AddedRow \<lparr> content = ''Baz'', lineNumber = 3, diffLineNumber = Some 5,
                     noNewLineIndicator = False, tokens = [] \<rparr> 2,
          AddedRow \<lparr> content = ''qux'', lineNumber = 4, diffLineNumber = Some 6,
                     noNewLineIndicator = False, tokens = [] \<rparr> 2,
          ContextRow ''end'' 4 5 [] [] ]"
  using run_is_paired_within_hunk[OF example_run_facts, of wholeLineTokens 0 True True]
    run_is_paired_within_hunk[OF example_run_facts, of wholeLineTokens 0 False True]
  by (simp add: example_header_rows example_trailer_rows example_paired_rows
      example_unpaired_rows)

subsection \<open>Emphasis tokens\<close>

lemma upt_split: "lo \<le> hi \<Longrightarrow> [0..<lo] @ [lo..<hi] = [0..<hi]"
  by (metis le_add_diff_inverse upt_add_eq_append zero_le)

lemma deletedCells_rows:
  "deletedCells (map (\<lambda>i. ModifiedRow (b i) (a i) h) xs @ map (\<lambda>i. DeletedRow (b i) h) ys @
                 map (\<lambda>i. AddedRow (a i) h) zs) = map b (xs @ ys)"
  by (simp add: deletedCells_def comp_def concat_map_singleton)

lemma addedCells_rows:
  "addedCells (map (\<lambda>i. ModifiedRow (b i) (a i) h) xs @ map (\<lambda>i. DeletedRow (b i) h) ys @
               map (\<lambda>i. AddedRow (a i) h) zs) = map a (xs @ zs)"
  by (simp add: addedCells_def comp_def concat_map_singleton)

lemma pairedRows_deletedCells:
  "deletedCells (pairedRows gdt sbs run) =
     map (\<lambda>i. beforeDataOf (filter isDelete run ! i)
                 (map_option fst (emphasisOf gdt (filter isAdd run) (filter isDelete run) i)))
       [0..<length (filter isDelete run)]"
  unfolding pairedRows_def Let_def deletedCells_rows
  by (simp add: upt_split del: map_append)

lemma pairedRows_addedCells:
  "addedCells (pairedRows gdt sbs run) =
     map (\<lambda>i. afterDataOf (filter isAdd run ! i)
                 (map_option snd (emphasisOf gdt (filter isAdd run) (filter isDelete run) i)))
       [0..<length (filter isAdd run)]"
  unfolding pairedRows_def Let_def addedCells_rows
  by (simp add: upt_split del: map_append)

lemma tokens_dataOf:
  "tokens (beforeDataOf l e) = (case e of None \<Rightarrow> [] | Some t \<Rightarrow> [t])"
  "tokens (afterDataOf l e) = (case e of None \<Rightarrow> [] | Some t \<Rightarrow> [t])"
  by (simp_all add: beforeDataOf_def afterDataOf_def rowData_def)

text \<open>
  Claim C5. The threshold is 240 characters. For a run whose lines carry
  their line numbers, \<open>getModifiedRows\<close> returns rows, and in these rows the
  cell of the deleted line \<open>i\<close> holds the before tokens, and the cell of the
  added line \<open>i\<close> the after tokens, that \<open>getDiffTokens\<close> computes from
  the two lines, if the run has as many added as deleted lines and both
  lines are shorter than the threshold; otherwise the cell holds no emphasis
  token.
\<close>

theorem emphasis_only_for_short_pairs_of_equal_runs:
  assumes "hasOld (filter isDelete run)" and "hasNew (filter isAdd run)"
  shows
    "MaxLineLengthToCalculateDiff = 240 \<and>
     (let added = filter isAdd run;
          deleted = filter isDelete run;
          emphasized = (\<lambda>i. length added = length deleted \<and>
                          length (line_content (ml_line (added ! i))) < MaxLineLengthToCalculateDiff \<and>
                          length (line_content (ml_line (deleted ! i))) < MaxLineLengthToCalculateDiff);
          computed = (\<lambda>i. gdt (line_content (ml_line (deleted ! i)))
                              (line_content (ml_line (added ! i))))
      in \<exists>rows. getModifiedRows gdt run sbs = Inr rows \<and>
           map tokens (deletedCells rows) =
             map (\<lambda>i. if emphasized i then [fst (computed i)] else []) [0..<length deleted] \<and>
           map tokens (addedCells rows) =
             map (\<lambda>i. if emphasized i then [snd (computed i)] else []) [0..<length added])"
proof -
  have "map tokens (deletedCells (pairedRows gdt sbs run)) =
      map (\<lambda>i. if length (filter isAdd run) = length (filter isDelete run) \<and>
                  length (line_content (ml_line (filter isAdd run ! i))) < MaxLineLengthToCalculateDiff \<and>
                  length (line_content (ml_line (filter isDelete run ! i))) < MaxLineLengthToCalculateDiff
               then [fst (gdt (line_content (ml_line (filter isDelete run ! i)))
                              (line_content (ml_line (filter isAdd run ! i))))]
               else [])
        [0..<length (filter isDelete run)]"
    unfolding pairedRows_deletedCells map_map
    by (rule map_cong) (auto simp: tokens_dataOf emphasisOf_def shortPair_def pairTokens_def)
  moreover have "map tokens (addedCells (pairedRows gdt sbs run)) =
      map (\<lambda>i. if length (filter isAdd run) = length (filter isDelete run) \<and>
                  length (line_content (ml_line (filter isAdd run ! i))) < MaxLineLengthToCalculateDiff \<and>
                  length (line_content (ml_line (filter isDelete run ! i))) < MaxLineLengthToCalculateDiff
               then [snd (gdt (line_content (ml_line (filter isDelete run ! i)))
                              (line_content (ml_line (filter isAdd run ! i))))]
               else [])
        [0..<length (filter isAdd run)]"
    unfolding pairedRows_addedCells map_map
    by (rule map_cong) (auto simp: tokens_dataOf emphasisOf_def shortPair_def pairTokens_def)
  ultimately show ?thesis
    unfolding Let_def getModifiedRows_paired[OF assms]
    by (simp add: MaxLineLengthToCalculateDiff_def)
qed

lemma example_equal_run_split:
  "filter isAdd exampleEqualRun =
     [\<lparr> ml_line = mkLine ''+foo baz'' Add 3 None (Some 1), ml_diffLineNumber = 3 \<rparr>,
      \<lparr> ml_line = mkLine (CHR ''+'' # replicate 240 CHR ''x'') Add 4 None (Some 2),
        ml_diffLineNumber = 4 \<rparr>]"
  "filter isDelete exampleEqualRun =
     [\<lparr> ml_line = mkLine ''-foo bar'' Delete 1 (Some 1) None, ml_diffLineNumber = 1 \<rparr>,
      \<lparr> ml_line = mkLine ''-short'' Delete 2 (Some 2) None, ml_diffLineNumber = 2 \<rparr>]"
  by (simp_all add: exampleEqualRun_def isAdd_def isDelete_def mkLine_def)

theorem emphasis_only_for_short_pairs_of_equal_runs_witness:
  "map_sum id (\<lambda>rows. map tokens (deletedCells rows))
     (getModifiedRows wholeLineTokens exampleEqualRun True) =
     Inr [ [ [0 \<mapsto> \<lparr> token_length = length ''foo bar'', token = ''diff-delete-inner'' \<rparr>] ], [] ] \<and>
   map_sum id (\<lambda>rows. map tokens (addedCells rows))
     (getModifiedRows wholeLineTokens exampleEqualRun True) =
     Inr [ [ [0 \<mapsto> \<lparr> token_length = length ''foo baz'', token = ''diff-add-inner'' \<rparr>] ], [] ]"
proof -
  have h1: "hasOld (filter isDelete exampleEqualRun)"
    by (simp add: example_equal_run_split hasOld_def mkLine_def)
  have h2: "hasNew (filter isAdd exampleEqualRun)"
    by (simp add: example_equal_run_split hasNew_def mkLine_def)
  from emphasis_only_for_short_pairs_of_equal_runs[OF h1 h2, of wholeLineTokens True]
  show ?thesis
    by (auto simp: Let_def example_equal_run_split mkLine_def example_upt wholeLineTokens_def)
qed

section \<open>The example inputs, evaluated\<close>

lemma example_rows:
  "getDiffRows wholeLineTokens exampleDiff True True =
     Inr [HunkRow ''@@ -1,4 +1,5 @@'' ExpansionNone 0,
          ContextRow ''foo'' 1 1 [] [],
          ModifiedRow \<lparr> content = ''bar'', lineNumber = 2, diffLineNumber = Some 2,
                        noNewLineIndicator = False, tokens = [] \<rparr>
                      \<lparr> content = ''Bar'', lineNumber = 2, diffLineNumber = Some 4,
                        noNewLineIndicator = False, tokens = [] \<rparr> 2,
          ModifiedRow \<lparr> content = ''baz'', lineNumber = 3, diffLineNumber = Some 3,
                        noNewLineIndicator = False, tokens = [] \<rparr>
                      \<lparr> content = ''Baz'', lineNumber = 3, diffLineNumber = Some 5,
                        noNewLineIndicator = False, tokens = [] \<rparr> 2,
          AddedRow \<lparr> content = ''qux'', lineNumber = 4, diffLineNumber = Some 6,
                     noNewLineIndicator = False, tokens = [] \<rparr> 2,
          ContextRow ''end'' 4 5 [] [] ]"
  by (simp add: getDiffRows_def exampleDiff_def exampleHunk_def exampleHeader_def exampleRun_def
      exampleTrailer_def mkLine_def getDiffRowsFromHunk_def flushModifiedLines_def
      getModifiedRows_def Let_def diffTokensLoop.simps modifiedLoop.simps deletedLoop.simps
      addedLoop.simps array_get_def array_shift_def forceUnwrap_def getDataFromLine_def)

lemma example_no_hits:
  "calcSearchTokens literalMatchAll wholeLineTokens exampleDiff True ''nothing'' True =
     Inr (Some emptySearchResults)"
  by (simp add: calcSearchTokens_def example_rows searchRow_def searchColumn_def
      enumerateColumnContents_def literalMatchAll_def matchesAt_def canonicalize_def)

lemma example_two_hits:
  "calcSearchTokens literalMatchAll wholeLineTokens exampleDiff True ''bar'' True =
     Inr (Some exampleResults)"
  by (simp add: calcSearchTokens_def example_rows searchRow_def searchColumn_def
      enumerateColumnContents_def literalMatchAll_def matchesAt_def canonicalize_def
      exampleResults_def numeral_3_eq_3)

lemma example_component_fields:
  "diff exampleComponent = exampleDiff"
  "showSideBySideDiff exampleComponent = True"
  "canExpandDiff exampleComponent = True"
  "searchQuery exampleComponent = None"
  "searchResults exampleComponent = None"
  by (simp_all add: exampleComponent_def canExpandDiff_def)

lemma example_searching_fields:
  "diff exampleSearching = exampleDiff"
  "showSideBySideDiff exampleSearching = True"
  "canExpandDiff exampleSearching = True"
  "searchQuery exampleSearching = Some ''bar''"
  "searchResults exampleSearching = Some exampleResults"
  "selectedSearchResult exampleSearching = Some (Num 0)"
  by (simp_all add: exampleSearching_def exampleComponent_def canExpandDiff_def)

lemma example_results_hits:
  "hits exampleResults = [(2, Before, 0, 3), (2, After, 0, 3)]"
  by (simp add: exampleResults_def sr_add_def emptySearchResults_def Let_def)

section \<open>Selection engine: results\<close>

lemma isInTemporarySelection_rectangle:
  "isInTemporarySelection r c (Some t) = withinTransientRectangle t r c"
  by (auto simp: isInTemporarySelection_def withinTransientRectangle_def min_def max_def)

text \<open>
  Claim C2. Without a transient drag, \<open>isInSelection\<close> is the persisted
  membership test; during an additive drag it is persisted membership or
  membership in the drag's rectangle; during a subtractive drag it is persisted
  membership and not membership in the rectangle. The rectangle holds the rows
  between the start row and the current row of the drag, inclusive and in
  either order, in the start column or the current column.
\<close>

theorem isInSelection_combines:
  "isInSelection isSel dln r c persisted drag =
     (case drag of
        None \<Rightarrow> persistedMembership isSel persisted dln
      | Some t \<Rightarrow>
          (if sel_isSelected t
           then persistedMembership isSel persisted dln \<or> withinTransientRectangle t r c
           else persistedMembership isSel persisted dln \<and> \<not> withinTransientRectangle t r c))"
  by (simp add: isInSelection_def persistedMembership_def isInTemporarySelection_rectangle
      Let_def split: option.split)

theorem isInSelection_combines_witness:
  "isInSelection setIsSelected 3 1 Before (Some {3}) None \<and>
   isInSelection setIsSelected 4 2 After (Some {3})
     (Some \<lparr> sel_from = \<lparr> column = Before, row = 3 \<rparr>, sel_to = \<lparr> column = After, row = 2 \<rparr>,
             sel_isSelected = True \<rparr>) \<and>
   \<not> isInSelection setIsSelected 6 4 After (Some {3})
     (Some \<lparr> sel_from = \<lparr> column = Before, row = 3 \<rparr>, sel_to = \<lparr> column = After, row = 2 \<rparr>,
             sel_isSelected = True \<rparr>) \<and>
   \<not> isInSelection setIsSelected 3 3 Before (Some {3})
     (Some \<lparr> sel_from = \<lparr> column = Before, row = 3 \<rparr>, sel_to = \<lparr> column = After, row = 2 \<rparr>,
             sel_isSelected = False \<rparr>)"
  using isInSelection_combines[of setIsSelected 3 1 Before "Some {3}" None]
    isInSelection_combines[of setIsSelected 4 2 After "Some {3}"
      "Some \<lparr> sel_from = \<lparr> column = Before, row = 3 \<rparr>, sel_to = \<lparr> column = After, row = 2 \<rparr>,
              sel_isSelected = True \<rparr>"]
    isInSelection_combines[of setIsSelected 6 4 After "Some {3}"
      "Some \<lparr> sel_from = \<lparr> column = Before, row = 3 \<rparr>, sel_to = \<lparr> column = After, row = 2 \<rparr>,
              sel_isSelected = True \<rparr>"]
    isInSelection_combines[of setIsSelected 3 3 Before "Some {3}"
      "Some \<lparr> sel_from = \<lparr> column = Before, row = 3 \<rparr>, sel_to = \<lparr> column = After, row = 2 \<rparr>,
              sel_isSelected = False \<rparr>"]
  by (simp add: persistedMembership_def withinTransientRectangle_def setIsSelected_def)

section \<open>Whole-file expansion: results\<close>

text \<open>
  Claim C6. When the whole-file expansion of the current diff \<open>D\<close> produces
  an updated diff, the component shows the updated diff and keeps \<open>D\<close> in
  \<open>diffToRestore\<close>; collapsing right after makes \<open>D\<close> itself the current
  diff again and empties \<open>diffToRestore\<close>, so that the component is the one
  before the expansion, with an empty restore buffer.
\<close>

theorem expand_then_collapse_restores:
  assumes "fileContents c = Some contents"
    and "canExpandDiff c"
    and "ewtd (diff c) (newContents contents) = Some updatedDiff"
  shows "diff (onExpandWholeFile ewtd c) = updatedDiff \<and>
         diffToRestore (onExpandWholeFile ewtd c) = Some (diff c) \<and>
         diff (onCollapseExpandedLines (onExpandWholeFile ewtd c)) = diff c \<and>
         diffToRestore (onCollapseExpandedLines (onExpandWholeFile ewtd c)) = None \<and>
         onCollapseExpandedLines (onExpandWholeFile ewtd c) = c\<lparr> diffToRestore := None \<rparr>"
  using assms by (simp add: onExpandWholeFile_def onCollapseExpandedLines_def)

theorem expand_then_collapse_restores_witness:
  "diff (onExpandWholeFile markExpanded exampleComponent) = exampleDiff\<lparr> maxLineNumber := 5 \<rparr> \<and>
   diffToRestore (onExpandWholeFile markExpanded exampleComponent) = Some exampleDiff \<and>
   diff (onCollapseExpandedLines (onExpandWholeFile markExpanded exampleComponent)) = exampleDiff \<and>
   diffToRestore (onCollapseExpandedLines (onExpandWholeFile markExpanded exampleComponent)) = None"
proof -
  let ?contents = "\<lparr> canBeExpanded = True, newContents = [''foo'', ''Bar'', ''Baz'', ''qux'', ''end''] \<rparr>"
  have h1: "fileContents exampleComponent = Some ?contents"
    by (simp add: exampleComponent_def)
  have h2: "canExpandDiff exampleComponent"
    by (simp add: canExpandDiff_def exampleComponent_def)
  have h3: "markExpanded (diff exampleComponent) (newContents ?contents) =
      Some (exampleDiff\<lparr> maxLineNumber := 5 \<rparr>)"
    by (simp add: markExpanded_def exampleComponent_def)
  have d: "diff exampleComponent = exampleDiff"
    by (simp add: exampleComponent_def)
  from expand_then_collapse_restores[where ewtd = markExpanded, OF h1 h2 h3] show ?thesis
    by (simp add: d)
qed

section \<open>Search: results\<close>

lemma js_rem_nonneg: "0 \<le> a \<Longrightarrow> 0 < n \<Longrightarrow> js_rem a n = a mod n"
  by (simp add: js_rem_def sgn_if)

lemma showSearchResult_fields:
  "selectedSearchResult (showSearchResult c q results s) = Some s"
  "searchResults (showSearchResult c q results s) = Some results"
  "searchQuery (showSearchResult c q results s) = Some q"
  by (simp_all add: showSearchResult_def Let_def split: option.splits)

lemma onSearch_unchanged:
  assumes "searchQuery c = Some q" "searchResults c = Some results" "hits results \<noteq> []"
    and "selectedSearchResult c = Some (Num i)" "0 \<le> i"
  shows "onSearch matchAll gdt c q direction =
     Inr (showSearchResult c q results
            (Num ((i + (if direction = Next then 1 else - 1) + int (length (hits results)))
                  mod int (length (hits results)))))"
proof -
  let ?n = "int (length (hits results))"
  have n: "0 < ?n" using assms(3) by simp
  have nz: "sr_length results \<noteq> 0" using assms(3) by (simp add: sr_length_def)
  have "0 \<le> i + (if direction = Next then 1 else - 1) + ?n"
  proof (cases "hits results")
    case Nil
    with assms(3) show ?thesis by simp
  next
    case (Cons h t)
    then show ?thesis using assms(5) by auto
  qed
  then have "js_rem (i + (if direction = Next then 1 else - 1) + ?n) ?n =
      (i + (if direction = Next then 1 else - 1) + ?n) mod ?n"
    using n by (rule js_rem_nonneg)
  then show ?thesis
    using assms(1,2,4) nz
    by (simp add: onSearch_def stepSelected_def sr_length_def Let_def del: mod_add_self2)
qed

lemma onSearch_changed:
  assumes "searchQuery c \<noteq> Some q"
    and "calcSearchTokens matchAll gdt (diff c) (showSideBySideDiff c) q (canExpandDiff c) =
           Inr (Some results)"
  shows "onSearch matchAll gdt c q direction =
     Inr (if hits results = [] then resetSearch c True else showSearchResult c q results (Num 0))"
  using assms by (auto simp: onSearch_def sr_length_def)

text \<open>
  Claim C7, as the code has it. When the search is run (the query is not the
  stored one, or no results are stored) and finds no hit, \<open>onSearch\<close> clears
  the query, the results and the selected hit as \<open>onSearchCancel\<close> does, but
  it leaves \<open>isSearching\<close> true, where \<open>onSearchCancel\<close> makes it false.
\<close>

theorem zero_hits_keeps_searching:
  assumes "searchQuery c \<noteq> Some q \<or> searchResults c = None"
    and "calcSearchTokens matchAll gdt (diff c) (showSideBySideDiff c) q (canExpandDiff c) =
           Inr (Some results)"
    and "hits results = []"
  shows "onSearch matchAll gdt c q direction = Inr ((onSearchCancel c)\<lparr> isSearching := True \<rparr>)"
  using assms by (auto simp: onSearch_def onSearchCancel_def resetSearch_def sr_length_def)

theorem zero_hits_keeps_searching_witness:
  "onSearch literalMatchAll wholeLineTokens exampleComponent ''nothing'' Next =
     Inr ((onSearchCancel exampleComponent)\<lparr> isSearching := True \<rparr>)"
proof -
  have h1: "searchQuery exampleComponent \<noteq> Some ''nothing'' \<or> searchResults exampleComponent = None"
    by (simp add: example_component_fields)
  have h2: "calcSearchTokens literalMatchAll wholeLineTokens (diff exampleComponent)
      (showSideBySideDiff exampleComponent) ''nothing'' (canExpandDiff exampleComponent) =
      Inr (Some emptySearchResults)"
    by (simp add: example_component_fields example_no_hits)
  have h3: "hits emptySearchResults = []"
    by (simp add: emptySearchResults_def)
  from zero_hits_keeps_searching[OF h1 h2 h3] show ?thesis .
qed

text \<open>
  The claim as stated fails: a search for \<^verbatim>\<open>nothing\<close> in the example diff
  finds no hit and leaves the search open, and cancelling closes it.
\<close>

theorem zero_hits_differs_from_cancel:
  "onSearch literalMatchAll wholeLineTokens exampleComponent ''nothing'' Next =
     Inr (exampleComponent\<lparr> isSearching := True \<rparr>) \<and>
   onSearchCancel exampleComponent = exampleComponent\<lparr> isSearching := False \<rparr> \<and>
   onSearch literalMatchAll wholeLineTokens exampleComponent ''nothing'' Next \<noteq>
     Inr (onSearchCancel exampleComponent)"
  by (simp add: onSearch_def onSearchCancel_def resetSearch_def exampleComponent_def
      canExpandDiff_def example_no_hits sr_length_def emptySearchResults_def)

text \<open>
  Claim C8, as the code has it. With the query unchanged, a stored hit set of
  \<open>n > 0\<close> hits and the selected index \<open>i\<close>, next selects
  \<open>(i + 1) mod n\<close> and previous selects \<open>(i - 1 + n) mod n\<close>, the hit
  set being kept. A changed query whose search finds at least one hit stores
  the rebuilt hit set and selects index 0. On a set of two hits, next from
  index 0 selects 1, and next again selects 0.
\<close>

theorem search_navigation:
  "(searchQuery c = Some q \<and> searchResults c = Some results \<and> hits results \<noteq> [] \<and>
    selectedSearchResult c = Some (Num i) \<and> 0 \<le> i \<longrightarrow>
      (\<exists>c'. onSearch matchAll gdt c q Next = Inr c' \<and>
            selectedSearchResult c' = Some (Num ((i + 1) mod int (length (hits results)))) \<and>
            searchResults c' = Some results \<and> searchQuery c' = Some q) \<and>
      (\<exists>c'. onSearch matchAll gdt c q Previous = Inr c' \<and>
            selectedSearchResult c' =
              Some (Num ((i - 1 + int (length (hits results))) mod int (length (hits results)))) \<and>
            searchResults c' = Some results \<and> searchQuery c' = Some q)) \<and>
   (searchQuery c \<noteq> Some q \<and>
    calcSearchTokens matchAll gdt (diff c) (showSideBySideDiff c) q (canExpandDiff c) =
      Inr (Some rebuilt) \<and> hits rebuilt \<noteq> [] \<longrightarrow>
      (\<exists>c'. onSearch matchAll gdt c q direction = Inr c' \<and>
            selectedSearchResult c' = Some (Num 0) \<and>
            searchResults c' = Some rebuilt \<and> searchQuery c' = Some q)) \<and>
   (searchQuery c = Some q \<and> searchResults c = Some results \<and> length (hits results) = 2 \<and>
    selectedSearchResult c = Some (Num 0) \<longrightarrow>
      (\<exists>c1 c2. onSearch matchAll gdt c q Next = Inr c1 \<and>
               selectedSearchResult c1 = Some (Num 1) \<and>
               onSearch matchAll gdt c1 q Next = Inr c2 \<and>
               selectedSearchResult c2 = Some (Num 0)))"
proof (intro conjI impI)
  assume a: "searchQuery c = Some q \<and> searchResults c = Some results \<and> hits results \<noteq> [] \<and>
    selectedSearchResult c = Some (Num i) \<and> 0 \<le> i"
  then have u: "\<And>direction. onSearch matchAll gdt c q direction =
     Inr (showSearchResult c q results
            (Num ((i + (if direction = Next then 1 else - 1) + int (length (hits results)))
                  mod int (length (hits results)))))"
    by (intro onSearch_unchanged) simp_all
  show "\<exists>c'. onSearch matchAll gdt c q Next = Inr c' \<and>
            selectedSearchResult c' = Some (Num ((i + 1) mod int (length (hits results)))) \<and>
            searchResults c' = Some results \<and> searchQuery c' = Some q"
    unfolding u by (simp add: showSearchResult_fields)
  show "\<exists>c'. onSearch matchAll gdt c q Previous = Inr c' \<and>
            selectedSearchResult c' =
              Some (Num ((i - 1 + int (length (hits results))) mod int (length (hits results)))) \<and>
            searchResults c' = Some results \<and> searchQuery c' = Some q"
    unfolding u by (simp add: showSearchResult_fields)
next
  assume "searchQuery c \<noteq> Some q \<and>
    calcSearchTokens matchAll gdt (diff c) (showSideBySideDiff c) q (canExpandDiff c) =
      Inr (Some rebuilt) \<and> hits rebuilt \<noteq> []"
  then show "\<exists>c'. onSearch matchAll gdt c q direction = Inr c' \<and>
            selectedSearchResult c' = Some (Num 0) \<and>
            searchResults c' = Some rebuilt \<and> searchQuery c' = Some q"
    by (simp add: onSearch_changed showSearchResult_fields)
next
  assume a: "searchQuery c = Some q \<and> searchResults c = Some results \<and> length (hits results) = 2 \<and>
    selectedSearchResult c = Some (Num 0)"
  then have ne: "hits results \<noteq> []" by auto
  let ?c1 = "showSearchResult c q results (Num 1)"
  have s1: "onSearch matchAll gdt c q Next = Inr ?c1"
    using onSearch_unchanged[of c q results 0 matchAll gdt Next] a ne by simp
  have s2: "onSearch matchAll gdt ?c1 q Next = Inr (showSearchResult ?c1 q results (Num 0))"
    using onSearch_unchanged[of ?c1 q results 1 matchAll gdt Next] a ne
    by (simp add: showSearchResult_fields)
  show "\<exists>c1 c2. onSearch matchAll gdt c q Next = Inr c1 \<and>
               selectedSearchResult c1 = Some (Num 1) \<and>
               onSearch matchAll gdt c1 q Next = Inr c2 \<and>
               selectedSearchResult c2 = Some (Num 0)"
    unfolding s1 using s2 by (simp add: showSearchResult_fields)
qed


theorem search_navigation_witness:
  "map_sum id selectedSearchResult
     (onSearch literalMatchAll wholeLineTokens exampleSearching ''bar'' Next) = Inr (Some (Num 1)) \<and>
   map_sum id selectedSearchResult
     (onSearch literalMatchAll wholeLineTokens exampleSearching ''bar'' Previous) = Inr (Some (Num 1)) \<and>
   map_sum id selectedSearchResult
     (onSearch literalMatchAll wholeLineTokens exampleComponent ''bar'' Next) = Inr (Some (Num 0)) \<and>
   map_sum id searchResults
     (onSearch literalMatchAll wholeLineTokens exampleComponent ''bar'' Next) =
     Inr (Some exampleResults)"
proof -
  have n: "hits exampleResults \<noteq> []" "int (length (hits exampleResults)) = 2"
    by (simp_all add: example_results_hits)
  have changed: "searchQuery exampleComponent \<noteq> Some ''bar''"
    by (simp add: example_component_fields)
  have rebuilt: "calcSearchTokens literalMatchAll wholeLineTokens (diff exampleComponent)
      (showSideBySideDiff exampleComponent) ''bar'' (canExpandDiff exampleComponent) =
      Inr (Some exampleResults)"
    by (simp add: example_component_fields example_two_hits)
  from search_navigation[where c = exampleSearching and q = "''bar''" and results = exampleResults
      and i = 0 and matchAll = literalMatchAll and gdt = wholeLineTokens]
    search_navigation[where c = exampleComponent and q = "''bar''" and rebuilt = exampleResults
      and matchAll = literalMatchAll and gdt = wholeLineTokens and direction = Next]
  show ?thesis
    using n changed rebuilt by (auto simp: example_searching_fields)
qed

text \<open>
  The claim as stated fails for a changed query without a hit: the search for
  \<^verbatim>\<open>nothing\<close> stores no hit set and selects no index.
\<close>

theorem changed_query_without_hits:
  "searchQuery exampleComponent \<noteq> Some ''nothing'' \<and>
   map_sum id selectedSearchResult
     (onSearch literalMatchAll wholeLineTokens exampleComponent ''nothing'' Next) = Inr None \<and>
   map_sum id searchResults
     (onSearch literalMatchAll wholeLineTokens exampleComponent ''nothing'' Next) = Inr None"
  by (simp add: onSearch_def resetSearch_def example_component_fields example_no_hits
      sr_length_def emptySearchResults_def)

subsection \<open>The scan\<close>

lemma sr_add_hits: "hits (sr_add h r c offset len) = hits h @ [(r, c, offset, len)]"
  by (simp add: sr_add_def Let_def)

lemma hitsIndexed_iff:
  "hitsIndexed sr \<longleftrightarrow>
     (\<forall>r c offset len. (r, c, offset, len) \<in> set (hits sr) \<longrightarrow>
        (\<exists>lt. lookup sr (r, c) = Some lt \<and> lt offset \<noteq> None))"
  unfolding hitsIndexed_def list_all_iff
  by (fastforce split: option.splits)

lemma sr_add_lookup:
  "lookup (sr_add h r c offset len) k =
     (if k = (r, c)
      then Some ((case lookup h (r, c) of None \<Rightarrow> Map.empty | Some e \<Rightarrow> e)
                   (offset \<mapsto> \<lparr> token_length = len, token = ''search-result'' \<rparr>))
      else lookup h k)"
  by (simp add: sr_add_def Let_def split: option.splits)

lemma sr_add_indexed:
  assumes "hitsIndexed h"
  shows "hitsIndexed (sr_add h r c offset len)"
  unfolding hitsIndexed_iff
proof (intro allI impI)
  fix r' c' offset' len'
  assume "(r', c', offset', len') \<in> set (hits (sr_add h r c offset len))"
  then consider "(r', c', offset', len') \<in> set (hits h)" | "(r', c', offset') = (r, c, offset)"
    by (auto simp: sr_add_hits)
  then show "\<exists>lt. lookup (sr_add h r c offset len) (r', c') = Some lt \<and> lt offset' \<noteq> None"
  proof cases
    case 1
    then obtain lt where "lookup h (r', c') = Some lt" "lt offset' \<noteq> None"
      using assms unfolding hitsIndexed_iff by blast
    then show ?thesis by (auto simp: sr_add_lookup)
  next
    case 2
    then show ?thesis by (simp add: sr_add_lookup)
  qed
qed

lemma searchColumn_hits:
  "hits (searchColumn matchAll q r cell h) = hits h @ hitsOfCell matchAll q r cell"
proof -
  have "\<And>h. hits (fold (\<lambda>m h. case fst m of None \<Rightarrow> h
                               | Some index \<Rightarrow> sr_add h r (fst cell) index (snd m)) ms h) =
      hits h @ concat (map (\<lambda>m. case fst m of None \<Rightarrow> []
                               | Some offset \<Rightarrow> [(r, fst cell, offset, snd m)]) ms)" for ms
    by (induction ms) (auto simp: sr_add_hits split: option.splits)
  then show ?thesis by (simp add: searchColumn_def hitsOfCell_def)
qed

lemma searchColumn_indexed:
  assumes "hitsIndexed h"
  shows "hitsIndexed (searchColumn matchAll q r cell h)"
proof -
  have "hitsIndexed h \<Longrightarrow>
      hitsIndexed (fold (\<lambda>m h. case fst m of None \<Rightarrow> h
                               | Some index \<Rightarrow> sr_add h r (fst cell) index (snd m)) ms h)" for ms h
    by (induction ms arbitrary: h) (auto simp: sr_add_indexed split: option.splits)
  from this[OF assms] show ?thesis by (simp add: searchColumn_def)
qed

lemma fold_searchColumn_indexed:
  "hitsIndexed h \<Longrightarrow> hitsIndexed (fold (searchColumn matchAll q r) cells h)"
  by (induction cells arbitrary: h) (simp_all add: searchColumn_indexed)

lemma enumerateColumnContents_scanned:
  "(case r of HunkRow tx e i \<Rightarrow> [] | _ \<Rightarrow> enumerateColumnContents r sbs) = scannedCells sbs r"
  by (cases r) (simp_all add: enumerateColumnContents_def scannedCells_def)

lemma searchRow_hits:
  "hits (searchRow matchAll q sbs e h) = hits h @ hitsOfRow matchAll q sbs e"
  by (cases "snd e")
     (simp_all add: searchRow_def hitsOfRow_def searchColumn_hits
        enumerateColumnContents_def scannedCells_def)

lemma searchRow_indexed:
  "hitsIndexed h \<Longrightarrow> hitsIndexed (searchRow matchAll q sbs e h)"
  by (cases "snd e") (simp_all add: searchRow_def fold_searchColumn_indexed del: fold_simps)

lemma fold_searchRow_hits:
  "hits (fold (searchRow matchAll q sbs) es h) = hits h @ concat (map (hitsOfRow matchAll q sbs) es)"
  by (induction es arbitrary: h) (simp_all add: searchRow_hits)

lemma fold_searchRow_indexed:
  "hitsIndexed h \<Longrightarrow> hitsIndexed (fold (searchRow matchAll q sbs) es h)"
  by (induction es arbitrary: h) (simp_all add: searchRow_indexed)

lemma calcSearchTokens_indexed:
  "calcSearchTokens matchAll gdt d sbs q exp = Inr (Some sr) \<Longrightarrow> hitsIndexed sr"
proof -
  assume a: "calcSearchTokens matchAll gdt d sbs q exp = Inr (Some sr)"
  have e: "hitsIndexed emptySearchResults"
    by (simp add: hitsIndexed_def emptySearchResults_def)
  from a obtain rs where "sr = fold (searchRow matchAll q sbs) (enumerate 0 rs) emptySearchResults"
    by (auto simp: calcSearchTokens_def split: if_splits sum.splits)
  then show ?thesis using fold_searchRow_indexed[OF e] by simp
qed

text \<open>
  Claim C9, as the code has it. For a non-empty query, the search over the
  rows of the diff records exactly the hits of \<open>hitsOfRow\<close>, row after row:
  hunk headers are not scanned, Modified rows are scanned in both columns,
  Deleted rows in the before column, Added rows in the after column in
  side-by-side display and in the before column otherwise, and Context rows in
  both columns in side-by-side display and in the before column only
  otherwise. Every hit carries its row index, column, offset and length, and
  is indexed by row and column under its offset. The matches are those of the
  regular expression built from the escaped query, the parameter \<open>matchAll\<close>.
\<close>

theorem search_scans_cells:
  assumes "q \<noteq> []" and "getDiffRows gdt d sbs exp = Inr rs"
  shows "\<exists>sr. calcSearchTokens matchAll gdt d sbs q exp = Inr (Some sr) \<and>
           hits sr = concat (map (hitsOfRow matchAll q sbs) (enumerate 0 rs)) \<and>
           hitsIndexed sr"
proof -
  let ?sr = "fold (searchRow matchAll q sbs) (enumerate 0 rs) emptySearchResults"
  have c: "calcSearchTokens matchAll gdt d sbs q exp = Inr (Some ?sr)"
    using assms by (simp add: calcSearchTokens_def)
  have "hits ?sr = concat (map (hitsOfRow matchAll q sbs) (enumerate 0 rs))"
    by (simp add: fold_searchRow_hits emptySearchResults_def)
  moreover have "hitsIndexed ?sr"
    by (rule calcSearchTokens_indexed[OF c])
  ultimately show ?thesis using c by blast
qed

text \<open>
  The matcher modelled from the spec reports literal occurrences of the query
  only, compared without regard to case, each of the length of the query.
\<close>

lemma literalMatchesFrom_sound:
  "(index, len) \<in> set (literalMatchesFrom q s i) \<Longrightarrow>
   \<exists>k. index = Some k \<and> i \<le> k \<and> len = length q \<and> matchesAt q s k"
proof (induction q s i rule: literalMatchesFrom.induct)
  case (1 q s i)
  show ?case
  proof (cases "length s < i + length q")
    case True
    then show ?thesis using "1.prems" by (subst (asm) literalMatchesFrom.simps) simp
  next
    case False
    note nl = this
    show ?thesis
    proof (cases "matchesAt q s i")
      case True
      from "1.prems" have "(index, len) = (Some i, length q) \<or>
          (index, len) \<in> set (literalMatchesFrom q s (i + max 1 (length q)))"
        using nl True by (subst (asm) literalMatchesFrom.simps) simp
      then show ?thesis
      proof
        assume "(index, len) = (Some i, length q)"
        then show ?thesis using True by auto
      next
        assume "(index, len) \<in> set (literalMatchesFrom q s (i + max 1 (length q)))"
        from "1.IH"(1)[OF nl True this] show ?thesis by auto
      qed
    next
      case False
      from "1.prems" have "(index, len) \<in> set (literalMatchesFrom q s (i + 1))"
        using nl False by (subst (asm) literalMatchesFrom.simps) simp
      from "1.IH"(2)[OF nl False this] show ?thesis by auto
    qed
  qed
qed

lemma literalMatchAll_sound:
  "(index, len) \<in> set (literalMatchAll q s) \<Longrightarrow>
   \<exists>k. index = Some k \<and> len = length q \<and> k + length q \<le> length s \<and>
       map canonicalize (take (length q) (drop k s)) = map canonicalize q"
  unfolding literalMatchAll_def
  by (drule literalMatchesFrom_sound) (auto simp: matchesAt_def)

lemma example_rows_unified:
  "getDiffRows wholeLineTokens exampleDiff False True =
     Inr [HunkRow ''@@ -1,4 +1,5 @@'' ExpansionNone 0,
          ContextRow ''foo'' 1 1 [] [],
          DeletedRow \<lparr> content = ''bar'', lineNumber = 2, diffLineNumber = Some 2,
                       noNewLineIndicator = False, tokens = [] \<rparr> 2,
          DeletedRow \<lparr> content = ''baz'', lineNumber = 3, diffLineNumber = Some 3,
                       noNewLineIndicator = False, tokens = [] \<rparr> 2,
          AddedRow \<lparr> content = ''Bar'', lineNumber = 2, diffLineNumber = Some 4,
                     noNewLineIndicator = False, tokens = [] \<rparr> 2,
          AddedRow \<lparr> content = ''Baz'', lineNumber = 3, diffLineNumber = Some 5,
                     noNewLineIndicator = False, tokens = [] \<rparr> 2,
          AddedRow \<lparr> content = ''qux'', lineNumber = 4, diffLineNumber = Some 6,
                     noNewLineIndicator = False, tokens = [] \<rparr> 2,
          ContextRow ''end'' 4 5 [] [] ]"
  by (simp add: getDiffRows_def exampleDiff_def exampleHunk_def exampleHeader_def exampleRun_def
      exampleTrailer_def mkLine_def getDiffRowsFromHunk_def flushModifiedLines_def
      getModifiedRows_def Let_def diffTokensLoop.simps modifiedLoop.simps deletedLoop.simps
      addedLoop.simps array_get_def array_shift_def forceUnwrap_def getDataFromLine_def)

theorem search_scans_cells_witness:
  "map_sum id (map_option hits)
     (calcSearchTokens literalMatchAll wholeLineTokens exampleDiff True ''BA'' True) =
     Inr (Some [(2, Before, 0, 2), (2, After, 0, 2), (3, Before, 0, 2), (3, After, 0, 2)])"
proof -
  have q: "''BA'' \<noteq> []" by simp
  from search_scans_cells[OF q example_rows, of literalMatchAll]
  show ?thesis
    by (auto simp: hitsOfRow_def hitsOfCell_def scannedCells_def literalMatchAll_def
        matchesAt_def canonicalize_def)
qed

text \<open>
  The claim as stated fails in unified display: the Context row 1 of the
  example holds \<^verbatim>\<open>foo\<close>, and the search records one hit for it, in the
  before column.
\<close>

theorem unified_context_row_scanned_once:
  "map_sum id (map_option hits)
     (calcSearchTokens literalMatchAll wholeLineTokens exampleDiff False ''foo'' True) =
     Inr (Some [(1, Before, 0, 3)]) \<and>
   map_sum id (map_option hits)
     (calcSearchTokens literalMatchAll wholeLineTokens exampleDiff False ''foo'' True) \<noteq>
     Inr (Some [(1, Before, 0, 3), (1, After, 0, 3)])"
  by (simp add: calcSearchTokens_def example_rows_unified searchRow_def searchColumn_def
      enumerateColumnContents_def literalMatchAll_def matchesAt_def canonicalize_def
      sr_add_def emptySearchResults_def Let_def)

section \<open>Token overlay: results\<close>

lemma pushAll_append: "pushAll acc xs = acc @ xs"
  unfolding pushAll_def by (induction xs arbitrary: acc) simp_all

lemma sr_get_in_hits: "sr_get sr s = Some h \<Longrightarrow> h \<in> set (hits sr)"
  by (auto simp: sr_get_def split: JSNumber.splits if_splits)

lemma hitsIndexed_lookup:
  assumes "hitsIndexed sr" "(r, c, offset, len) \<in> set (hits sr)"
  shows "\<exists>lt. lookup sr (r, c) = Some lt \<and> lt offset \<noteq> None"
  using assms by (auto simp: hitsIndexed_def list_all_iff split: option.splits)

lemma foundTokens_searchHitTokens:
  assumes "case searchResults c of None \<Rightarrow> True | Some sr \<Rightarrow> hitsIndexed sr"
  shows "foundTokens c r col = searchHitTokens c r col"
proof (cases "searchResults c")
  case None
  then show ?thesis by (simp add: foundTokens_def getSearchTokens_def searchHitTokens_def)
next
  case (Some sr)
  then have ix: "hitsIndexed sr" using assms by simp
  show ?thesis
  proof (cases "lookup sr (r, col)")
    case None
    then show ?thesis using Some
      by (simp add: foundTokens_def getSearchTokens_def searchHitTokens_def getLineTokens_def)
  next
    case lt: (Some lt)
    show ?thesis
    proof (cases "selectedHitAt c r col")
      case None
      then show ?thesis using Some lt
        by (auto simp: foundTokens_def getSearchTokens_def searchHitTokens_def getLineTokens_def
            selectedHitAt_def split: option.splits if_splits)
    next
      case sel: (Some p)
      obtain offset len where p: "p = (offset, len)" by (cases p)
      from sel obtain s where s: "selectedSearchResult c = Some s" "sr_get sr s = Some (r, col, offset, len)"
        using Some unfolding p
        by (auto simp: selectedHitAt_def split: option.splits if_splits)
      from hitsIndexed_lookup[OF ix sr_get_in_hits[OF s(2)] ] lt have "lt offset \<noteq> None"
        by auto
      then show ?thesis using Some lt sel s unfolding p
        by (simp add: foundTokens_def getSearchTokens_def searchHitTokens_def getLineTokens_def)
    qed
  qed
qed

lemma getRowDataPopulated_tokens:
  "tokens (getRowDataPopulated gt isSel c d r col toks) =
     tokens d @ foundTokens c r col @ syntaxTokens (gt (lineNumber d) toks)"
  by (simp add: getRowDataPopulated_def Let_def pushAll_append foundTokens_def syntaxTokens_def
      split: option.splits)

lemma createFullRow_context:
  "createFullRow gt isSel c (ContextRow tx bl al bt atk) n =
     ContextRow tx bl al
       (bt @ syntaxTokens (case gt bl (beforeTokens c) of
                             Some t \<Rightarrow> Some t
                           | None \<Rightarrow> gt al (afterTokens c)) @ foundTokens c n Before)
       (atk @ syntaxTokens (case gt bl (beforeTokens c) of
                              Some t \<Rightarrow> Some t
                            | None \<Rightarrow> gt al (afterTokens c)) @ foundTokens c n After)"
  by (simp add: createFullRow_def Let_def pushAll_append foundTokens_def syntaxTokens_def
      split: option.splits)

text \<open>
  Claim C4, as the code has it. The two columns of a Context row receive the
  same syntax tokens: those of the lookup of the old line number in the
  pre-image table when that lookup hits, otherwise those of the lookup of the
  new line number in the post-image table, and none when both miss. They
  follow the row's own tokens and precede the search tokens of the column.
\<close>

theorem context_row_shares_syntax_tokens:
  "createFullRow gt isSel c (ContextRow tx bl al bt atk) n =
     (let syntax = (case gt bl (beforeTokens c) of
                      Some t \<Rightarrow> [t]
                    | None \<Rightarrow> (case gt al (afterTokens c) of Some t \<Rightarrow> [t] | None \<Rightarrow> []))
      in ContextRow tx bl al (bt @ syntax @ foundTokens c n Before)
                             (atk @ syntax @ foundTokens c n After))"
  by (simp add: createFullRow_context Let_def syntaxTokens_def split: option.splits)

text \<open>
  Claim C3, as the code has it. In a cell of an Added, Deleted or Modified row
  the token list is the emphasis tokens of the cell, then its search-hit
  tokens, then the syntax tokens looked up by the line number of the cell, in
  the post-image table for an added line and in the pre-image table for a
  deleted line. In a column of a Context row it is the row's own tokens, then
  the syntax tokens of the row, then the search-hit tokens of the column.
\<close>

theorem token_overlay_order:
  assumes "case searchResults c of None \<Rightarrow> True | Some sr \<Rightarrow> hitsIndexed sr"
  shows "rowTokens (createFullRow gt isSel c r n) col =
     (case r of
        AddedRow d h \<Rightarrow>
          tokens d @ searchHitTokens c n (if showSideBySideDiff c then After else Before) @
          syntaxTokens (gt (lineNumber d) (afterTokens c))
      | DeletedRow d h \<Rightarrow>
          tokens d @ searchHitTokens c n Before @ syntaxTokens (gt (lineNumber d) (beforeTokens c))
      | ModifiedRow b a h \<Rightarrow>
          (if col = Before
           then tokens b @ searchHitTokens c n Before @
                syntaxTokens (gt (lineNumber b) (beforeTokens c))
           else tokens a @ searchHitTokens c n After @
                syntaxTokens (gt (lineNumber a) (afterTokens c)))
      | ContextRow tx bl al bt atk \<Rightarrow>
          (if col = Before then bt else atk) @
          syntaxTokens (case gt bl (beforeTokens c) of
                          Some t \<Rightarrow> Some t
                        | None \<Rightarrow> gt al (afterTokens c)) @
          searchHitTokens c n col
      | HunkRow tx e i \<Rightarrow> [])"
proof (cases r)
  case (ContextRow tx bl al bt atk)
  show ?thesis
    unfolding ContextRow createFullRow_context
    by (cases col) (simp_all add: foundTokens_searchHitTokens[OF assms])
qed (simp_all add: createFullRow_def getRowDataPopulated_tokens foundTokens_searchHitTokens[OF assms])

lemma example_highlighted_fields:
  "beforeTokens exampleHighlighted = Some exampleTokens"
  "afterTokens exampleHighlighted = Some exampleTokens"
  "searchResults exampleHighlighted = Some exampleFooResults"
  "selectedSearchResult exampleHighlighted = Some (Num 0)"
  "showSideBySideDiff exampleHighlighted = True"
  by (simp_all add: exampleHighlighted_def exampleComponent_def)

lemma example_foo_results:
  "lookup exampleFooResults (1, Before) = Some [0 \<mapsto> \<lparr> token_length = 3, token = ''search-result'' \<rparr>]"
  "lookup exampleFooResults (1, After) = Some [0 \<mapsto> \<lparr> token_length = 3, token = ''search-result'' \<rparr>]"
  "hits exampleFooResults = [(1, Before, 0, 3), (1, After, 0, 3)]"
  by (simp_all add: exampleFooResults_def sr_add_def emptySearchResults_def Let_def)

lemma example_found:
  "foundTokens exampleHighlighted 1 Before =
     [ [0 \<mapsto> \<lparr> token_length = 3, token = ''search-result'' \<rparr>],
      [0 \<mapsto> \<lparr> token_length = 3, token = ''selected'' \<rparr>] ]"
  "foundTokens exampleHighlighted 1 After =
     [ [0 \<mapsto> \<lparr> token_length = 3, token = ''search-result'' \<rparr>] ]"
  by (simp_all add: foundTokens_def getSearchTokens_def example_highlighted_fields
      getLineTokens_def example_foo_results sr_get_def)

text \<open>
  The claim as stated fails on a Context row: its syntax tokens come before
  its search tokens.
\<close>

theorem context_row_puts_search_tokens_last:
  "createFullRow lookupTokens setIsSelected exampleHighlighted (ContextRow ''foo'' 1 1 [] []) 1 =
     ContextRow ''foo'' 1 1
       [exampleLineTokens,
        [0 \<mapsto> \<lparr> token_length = 3, token = ''search-result'' \<rparr>],
        [0 \<mapsto> \<lparr> token_length = 3, token = ''selected'' \<rparr>] ]
       [exampleLineTokens,
        [0 \<mapsto> \<lparr> token_length = 3, token = ''search-result'' \<rparr>] ] \<and>
   createFullRow lookupTokens setIsSelected exampleHighlighted (ContextRow ''foo'' 1 1 [] []) 1 \<noteq>
     ContextRow ''foo'' 1 1
       [ [0 \<mapsto> \<lparr> token_length = 3, token = ''search-result'' \<rparr>],
        [0 \<mapsto> \<lparr> token_length = 3, token = ''selected'' \<rparr>],
        exampleLineTokens]
       [ [0 \<mapsto> \<lparr> token_length = 3, token = ''search-result'' \<rparr>],
        exampleLineTokens]"
proof -
  have ne: "exampleLineTokens \<noteq> [0 \<mapsto> \<lparr> token_length = 3, token = ''search-result'' \<rparr>]"
  proof
    assume "exampleLineTokens = [0 \<mapsto> \<lparr> token_length = 3, token = ''search-result'' \<rparr>]"
    then have "exampleLineTokens 0 = [0 \<mapsto> \<lparr> token_length = 3, token = ''search-result'' \<rparr>] (0::nat)"
      by simp
    then show False by (simp add: exampleLineTokens_def)
  qed
  show ?thesis
    using ne
    by (simp add: createFullRow_context example_found syntaxTokens_def lookupTokens_def
        example_highlighted_fields exampleTokens_def)
qed

lemma example_half_fields:
  "beforeTokens exampleHalfHighlighted = Some Map.empty"
  "afterTokens exampleHalfHighlighted = Some exampleTokens"
  "searchResults exampleHalfHighlighted = None"
  by (simp_all add: exampleHalfHighlighted_def exampleComponent_def)

text \<open>
  The claim as stated fails where the pre-image lookup misses and the
  post-image lookup hits: the before column receives the post-image tokens.
\<close>

theorem context_row_borrows_post_image_tokens:
  "lookupTokens 1 (beforeTokens exampleHalfHighlighted) = None \<and>
   lookupTokens 1 (afterTokens exampleHalfHighlighted) = Some exampleLineTokens \<and>
   createFullRow lookupTokens setIsSelected exampleHalfHighlighted (ContextRow ''foo'' 1 1 [] []) 1 =
     ContextRow ''foo'' 1 1 [exampleLineTokens] [exampleLineTokens] \<and>
   createFullRow lookupTokens setIsSelected exampleHalfHighlighted (ContextRow ''foo'' 1 1 [] []) 1 \<noteq>
     ContextRow ''foo'' 1 1 [] [exampleLineTokens]"
  by (simp add: createFullRow_context foundTokens_def getSearchTokens_def syntaxTokens_def
      lookupTokens_def example_half_fields exampleTokens_def)

lemma example_results_lookup:
  "lookup exampleResults (2, Before) = Some [0 \<mapsto> \<lparr> token_length = 3, token = ''search-result'' \<rparr>]"
  by (simp add: exampleResults_def sr_add_def emptySearchResults_def Let_def)

theorem token_overlay_order_witness:
  "rowTokens
     (createFullRow lookupTokens setIsSelected
        (exampleSearching\<lparr> beforeTokens := Some exampleTokens \<rparr>)
        (ModifiedRow \<lparr> content = ''bar'', lineNumber = 2, diffLineNumber = Some 2,
                       noNewLineIndicator = False,
                       tokens = [fst (wholeLineTokens ''bar'' ''Bar'')] \<rparr>
                     \<lparr> content = ''Bar'', lineNumber = 2, diffLineNumber = Some 4,
                       noNewLineIndicator = False,
                       tokens = [snd (wholeLineTokens ''bar'' ''Bar'')] \<rparr> 2) 2) Before =
     [fst (wholeLineTokens ''bar'' ''Bar''),
      [0 \<mapsto> \<lparr> token_length = 3, token = ''search-result'' \<rparr>],
      [0 \<mapsto> \<lparr> token_length = 3, token = ''selected'' \<rparr>],
      exampleLineTokens]"
proof -
  let ?c = "exampleSearching\<lparr> beforeTokens := Some exampleTokens \<rparr>"
  let ?r = "ModifiedRow \<lparr> content = ''bar'', lineNumber = 2, diffLineNumber = Some 2,
                          noNewLineIndicator = False,
                          tokens = [fst (wholeLineTokens ''bar'' ''Bar'')] \<rparr>
                        \<lparr> content = ''Bar'', lineNumber = 2, diffLineNumber = Some 4,
                          noNewLineIndicator = False,
                          tokens = [snd (wholeLineTokens ''bar'' ''Bar'')] \<rparr> 2"
  have f: "searchResults ?c = Some exampleResults" "selectedSearchResult ?c = Some (Num 0)"
    "beforeTokens ?c = Some exampleTokens"
    by (simp_all add: example_searching_fields)
  have h: "case searchResults ?c of None \<Rightarrow> True | Some sr \<Rightarrow> hitsIndexed sr"
    by (simp add: f hitsIndexed_def example_results_hits example_results_lookup
        exampleResults_def sr_add_def emptySearchResults_def Let_def)
  from token_overlay_order[OF h, of lookupTokens setIsSelected ?r 2 Before]
  show ?thesis
    by (simp add: searchHitTokens_def selectedHitAt_def example_searching_fields
        example_results_lookup example_results_hits sr_get_def syntaxTokens_def
        lookupTokens_def exampleTokens_def)
qed

theorem context_row_shares_syntax_tokens_witness:
  "createFullRow lookupTokens setIsSelected exampleHighlighted (ContextRow ''foo'' 1 1 [] []) 1 =
     ContextRow ''foo'' 1 1
       ([exampleLineTokens] @ foundTokens exampleHighlighted 1 Before)
       ([exampleLineTokens] @ foundTokens exampleHighlighted 1 After)"
  using context_row_shares_syntax_tokens[of lookupTokens setIsSelected exampleHighlighted
      "''foo''" 1 1 "[]" "[]" 1]
  by (simp add: lookupTokens_def example_highlighted_fields exampleTokens_def)

section \<open>Drag selection: results\<close>

declare endSelectionLoop.simps [simp del]

lemma getDiffLineNumber_rowAt:
  assumes "getDiffRows gdt (diff c) (showSideBySideDiff c) (canExpandDiff c) = Inr rs"
  shows "getDiffLineNumber gdt c i col = Inr (lineNumberOf (rowAt rs i) col)"
proof (cases "rowAt rs i")
  case None
  then show ?thesis using assms
    by (auto simp: getDiffLineNumber_def rowAt_def array_get_def split: if_splits)
next
  case (Some r)
  then have "(if 0 \<le> i then array_get rs (nat i) else None) = Some r"
    by (auto simp: rowAt_def array_get_def split: if_splits)
  then show ?thesis using assms Some
    by (cases r) (simp_all add: getDiffLineNumber_def)
qed

lemma lineNumbersOfRow_skipped: "\<not> contributes r \<Longrightarrow> lineNumbersOfRow r fc tc = []"
  by (cases r rule: contributes.cases) (simp_all add: lineNumbersOfRow_def)

lemma concat_map_filter_skipped:
  "(\<And>x. \<not> P x \<Longrightarrow> f x = []) \<Longrightarrow> concat (map f (filter P xs)) = concat (map f xs)"
  by (induction xs) auto

lemma endSelectionLoop_fold:
  assumes "getDiffRows gdt (diff c) (showSideBySideDiff c) (canExpandDiff c) = Inr rs"
  shows "endSelectionLoop wls gdt c r toRow fc tc b s =
     Inr (fold (\<lambda>l s. wls s l b)
            (concat (map (\<lambda>i. lineNumbersOfRow (rowAt rs i) fc tc) [r..toRow])) s)"
proof (induction "nat (toRow + 1 - r)" arbitrary: r s)
  case 0
  then have "\<not> r \<le> toRow" by simp
  then show ?case by (subst endSelectionLoop.simps) simp
next
  case (Suc n)
  then have le: "r \<le> toRow" and n: "n = nat (toRow + 1 - (r + 1))" by auto
  show ?case
    using le
    by (subst endSelectionLoop.simps)
       (simp add: getDiffLineNumber_rowAt[OF assms] Suc.hyps(1)[OF n] upto_rec1[OF le]
          lineNumbersOfRow_def Let_def split: option.splits)
qed

text \<open>
  Claim C10. With the rows of the current diff at hand, the diff line number
  of a row number that is out of range, or that addresses a hunk header or a
  Context row, is \<^verbatim>\<open>null\<close> for either column. When a drag is released,
  the selection handed on is the persisted one updated, with the flag of the
  drag, at the line numbers of the Added, Deleted and Modified rows of the
  range only, row after row; the other rows of the range change nothing. The
  transient selection is discarded.
\<close>

theorem drag_release_skips_rows:
  assumes "getDiffRows gdt (diff c) (showSideBySideDiff c) (canExpandDiff c) = Inr rs"
  shows "(i < 0 \<or> int (length rs) \<le> i \<longrightarrow> getDiffLineNumber gdt c i col = Inr None) \<and>
         (rowAt rs i = Some (HunkRow tx e k) \<longrightarrow> getDiffLineNumber gdt c i col = Inr None) \<and>
         (rowAt rs i = Some (ContextRow tx bl al bt atk) \<longrightarrow>
            getDiffLineNumber gdt c i col = Inr None) \<and>
         (getSelection c = Some s \<and> temporarySelection c = Some t \<longrightarrow>
            onEndSelection wls gdt c =
              Inr (c\<lparr> temporarySelection := None \<rparr>,
                   Some (fold (\<lambda>l s. wls s l (sel_isSelected t))
                           (concat
                              (map (\<lambda>i. lineNumbersOfRow (rowAt rs i) (column (sel_from t))
                                          (column (sel_to t)))
                                 (filter (\<lambda>i. contributes (rowAt rs i))
                                    [min (row (sel_from t)) (row (sel_to t))..
                                     max (row (sel_from t)) (row (sel_to t))])))
                           s)))"
proof (intro conjI impI)
  assume "i < 0 \<or> int (length rs) \<le> i"
  then have "rowAt rs i = None" by (auto simp: rowAt_def)
  then show "getDiffLineNumber gdt c i col = Inr None"
    by (simp add: getDiffLineNumber_rowAt[OF assms])
next
  assume "rowAt rs i = Some (HunkRow tx e k)"
  then show "getDiffLineNumber gdt c i col = Inr None"
    by (simp add: getDiffLineNumber_rowAt[OF assms])
next
  assume "rowAt rs i = Some (ContextRow tx bl al bt atk)"
  then show "getDiffLineNumber gdt c i col = Inr None"
    by (simp add: getDiffLineNumber_rowAt[OF assms])
next
  assume a: "getSelection c = Some s \<and> temporarySelection c = Some t"
  have "concat (map (\<lambda>i. lineNumbersOfRow (rowAt rs i) (column (sel_from t)) (column (sel_to t)))
                 (filter (\<lambda>i. contributes (rowAt rs i))
                    [min (row (sel_from t)) (row (sel_to t))..
                     max (row (sel_from t)) (row (sel_to t))])) =
        concat (map (\<lambda>i. lineNumbersOfRow (rowAt rs i) (column (sel_from t)) (column (sel_to t)))
                 [min (row (sel_from t)) (row (sel_to t))..
                  max (row (sel_from t)) (row (sel_to t))])"
    by (rule concat_map_filter_skipped) (rule lineNumbersOfRow_skipped)
  then show "onEndSelection wls gdt c =
      Inr (c\<lparr> temporarySelection := None \<rparr>,
           Some (fold (\<lambda>l s. wls s l (sel_isSelected t))
                   (concat
                      (map (\<lambda>i. lineNumbersOfRow (rowAt rs i) (column (sel_from t))
                                  (column (sel_to t)))
                         (filter (\<lambda>i. contributes (rowAt rs i))
                            [min (row (sel_from t)) (row (sel_to t))..
                             max (row (sel_from t)) (row (sel_to t))])))
                   s))"
    using a by (simp add: onEndSelection_def Let_def endSelectionLoop_fold[OF assms])
qed

lemma example_dragging_rows:
  "getDiffRows wholeLineTokens (diff exampleDragging) (showSideBySideDiff exampleDragging)
     (canExpandDiff exampleDragging) =
     Inr [HunkRow ''@@ -1,4 +1,5 @@'' ExpansionNone 0,
          ContextRow ''foo'' 1 1 [] [],
          ModifiedRow \<lparr> content = ''bar'', lineNumber = 2, diffLineNumber = Some 2,
                        noNewLineIndicator = False, tokens = [] \<rparr>
                      \<lparr> content = ''Bar'', lineNumber = 2, diffLineNumber = Some 4,
                        noNewLineIndicator = False, tokens = [] \<rparr> 2,
          ModifiedRow \<lparr> content = ''baz'', lineNumber = 3, diffLineNumber = Some 3,
                        noNewLineIndicator = False, tokens = [] \<rparr>
                      \<lparr> content = ''Baz'', lineNumber = 3, diffLineNumber = Some 5,
                        noNewLineIndicator = False, tokens = [] \<rparr> 2,
          AddedRow \<lparr> content = ''qux'', lineNumber = 4, diffLineNumber = Some 6,
                     noNewLineIndicator = False, tokens = [] \<rparr> 2,
          ContextRow ''end'' 4 5 [] [] ]"
proof -
  have "diff exampleDragging = exampleDiff" "showSideBySideDiff exampleDragging = True"
    "canExpandDiff exampleDragging = True"
    by (simp_all add: exampleDragging_def exampleComponent_def canExpandDiff_def)
  then show ?thesis by (simp only: example_rows)
qed

theorem drag_release_skips_rows_witness:
  "getDiffLineNumber wholeLineTokens exampleDragging 6 Before = Inr None \<and>
   getDiffLineNumber wholeLineTokens exampleDragging 0 Before = Inr None \<and>
   getDiffLineNumber wholeLineTokens exampleDragging 1 After = Inr None \<and>
   map_sum id snd (onEndSelection setWithLineSelection wholeLineTokens exampleDragging) =
     Inr (Some {2, 3, 4, 5, 6})"
proof -
  let ?t = "\<lparr> sel_from = \<lparr> column = Before, row = 6 \<rparr>, sel_to = \<lparr> column = After, row = 0 \<rparr>,
             sel_isSelected = True \<rparr>"
  have f: "getSelection exampleDragging = Some {3} \<and> temporarySelection exampleDragging = Some ?t"
    by (simp add: exampleDragging_def exampleComponent_def)
  have range: "[0..6] = [0, 1, 2, 3, 4, 5, 6::int]"
    by code_simp
  note th = drag_release_skips_rows[OF example_dragging_rows]
  have "getDiffLineNumber wholeLineTokens exampleDragging 6 Before = Inr None"
    using th[where i = 6 and col = Before] by simp
  moreover have "getDiffLineNumber wholeLineTokens exampleDragging 0 Before = Inr None"
    using th[where i = 0 and col = Before and tx = "''@@ -1,4 +1,5 @@''" and e = ExpansionNone
        and k = 0]
    by (simp add: rowAt_def)
  moreover have "getDiffLineNumber wholeLineTokens exampleDragging 1 After = Inr None"
    using th[where i = 1 and col = After and tx = "''foo''" and bl = 1 and al = 1 and bt = "[]"
        and atk = "[]"]
    by (simp add: rowAt_def)
  moreover have "map_sum id snd (onEndSelection setWithLineSelection wholeLineTokens exampleDragging) =
     Inr (Some {2, 3, 4, 5, 6})"
    using th[where i = 6 and col = Before and tx = "''foo''" and e = ExpansionNone and k = 0
        and bl = 1 and al = 1 and bt = "[]" and atk = "[]"
        and s = "{3}" and t = ?t and wls = setWithLineSelection] f
    by (auto simp: rowAt_def lineNumbersOfRow_def setWithLineSelection_def range)
  ultimately show ?thesis by blast
qed

end
